theory Spec2Isabelle
  imports Main "HOL-Library.Word" "HOL-Library.Sublist"
begin

section \<open>JavaScript strings and values\<close>

text \<open>
  A JavaScript string is a sequence of 16-bit UTF-16 code units. Literals of the source are
  written \<open>js ''...''\<close>; every character of such a literal is ASCII, so its code unit is
  its character code.
\<close>

type_synonym jschar = "16 word"
type_synonym jsstring = "jschar list"

definition js :: "string \<Rightarrow> jsstring" where
  "js s = map of_char s"

definition LF :: jschar where
  "LF = 0x0A"

definition DQUOTE :: jschar where
  "DQUOTE = 0x22"

text \<open>
  The characters matched by \<open>\s\<close> in a regular expression and removed by
  \<open>String.prototype.trim\<close>: ECMAScript's WhiteSpace (TAB, VT, FF, ZWNBSP and the
  Unicode category Zs) and LineTerminator (LF, CR, LS, PS).
\<close>

definition isWhiteSpace :: "jschar \<Rightarrow> bool" where
  "isWhiteSpace c \<longleftrightarrow>
     c \<in> {0x09, 0x0A, 0x0B, 0x0C, 0x0D, 0x20, 0xA0, 0x1680, 0x2028, 0x2029, 0x202F,
          0x205F, 0x3000, 0xFEFF}
     \<or> (0x2000 \<le> c \<and> c \<le> 0x200A)"

definition trim :: "jsstring \<Rightarrow> jsstring" where
  "trim s = rev (dropWhile isWhiteSpace (rev (dropWhile isWhiteSpace s)))"

text \<open>\<open>Array.prototype.join\<close> on an array of strings.\<close>

fun join :: "jsstring \<Rightarrow> jsstring list \<Rightarrow> jsstring" where
  "join sep [] = []"
| "join sep [x] = x"
| "join sep (x # y # ys) = x @ sep @ join sep (y # ys)"

text \<open>\<open>String.prototype.includes\<close>: the argument occurs as a contiguous substring.\<close>

fun includes_str :: "jsstring \<Rightarrow> jsstring \<Rightarrow> bool" where
  "includes_str [] t = (t = [])"
| "includes_str (c # cs) t = (prefix t (c # cs) \<or> includes_str cs t)"

text \<open>
  Dynamically typed values, for the places where the source tests a value's type or
  truthiness at run time. Numbers are restricted to integers; \<open>JSObject\<close> stands for
  any object or array.
\<close>

datatype jsvalue =
    JSUndefined
  | JSNull
  | JSBoolean bool
  | JSNumber int
  | JSString jsstring
  | JSObject

fun truthy :: "jsvalue \<Rightarrow> bool" where
  "truthy JSUndefined = False"
| "truthy JSNull = False"
| "truthy (JSBoolean b) = b"
| "truthy (JSNumber n) = (n \<noteq> 0)"
| "truthy (JSString s) = (s \<noteq> [])"
| "truthy JSObject = True"

fun typeof :: "jsvalue \<Rightarrow> jsstring" where
  "typeof JSUndefined = js ''undefined''"
| "typeof JSNull = js ''object''"
| "typeof (JSBoolean b) = js ''boolean''"
| "typeof (JSNumber n) = js ''number''"
| "typeof (JSString s) = js ''string''"
| "typeof JSObject = js ''object''"

text \<open>
  What the source can throw: \<open>new Error(message)\<close>, the built-in \<open>TypeError\<close> and
  \<open>URIError\<close>, and the rejection of an axios request, which carries a message and, when
  the server answered, the response (its status as rendered by a template literal and its
  body as rendered by \<open>JSON.stringify\<close>).
\<close>

datatype error =
    Error jsstring
  | TypeError
  | URIError
  | AxiosError jsstring "(jsstring \<times> jsstring) option"

section \<open>SQL validation\<close>

text \<open>
  \<open>cleaned.replace(/--[^\n]*\n/g, '\n')\<close>: scanning from the left, a match starts at
  \<open>--\<close> and, the class \<open>[^\n]*\<close> being greedy and unable to cross a line feed, ends
  at the first line feed after it; there is no match at a \<open>--\<close> that no line feed follows.
  Each match is replaced by a line feed and the scan resumes after the match.
\<close>

function removeLineComments :: "jsstring \<Rightarrow> jsstring" where
  "removeLineComments [] = []"
| "removeLineComments (c # cs) =
     (if prefix (js ''--'') (c # cs) \<and> LF \<in> set (drop 1 cs)
      then LF # removeLineComments (drop 1 (dropWhile (\<lambda>x. x \<noteq> LF) (drop 1 cs)))
      else c # removeLineComments cs)"
  by pat_completeness auto
termination
proof (relation "measure length")
  show "wf (measure length)" by simp
next
  fix c :: jschar and cs :: jsstring
  have "length (dropWhile (\<lambda>x. x \<noteq> LF) (drop 1 cs)) \<le> length (drop 1 cs)"
    by (rule length_dropWhile_le)
  then show "(drop 1 (dropWhile (\<lambda>x. x \<noteq> LF) (drop 1 cs)), c # cs) \<in> measure length"
    by simp
next
  fix c :: jschar and cs :: jsstring
  show "(cs, c # cs) \<in> measure length" by simp
qed

text \<open>
  The text after the first \<open>*/\<close>, if there is one: where the lazy \<open>[\s\S]*?\<close> of
  \<open>/\/\*[\s\S]*?\*\//g\<close> stops.
\<close>

fun findBlockEnd :: "jsstring \<Rightarrow> jsstring option" where
  "findBlockEnd [] = None"
| "findBlockEnd (c # cs) =
     (if prefix (js ''*/'') (c # cs) then Some (drop 1 cs) else findBlockEnd cs)"

text \<open>
  \<open>cleaned.replace(/\/\*[\s\S]*?\*\//g, '')\<close>: a match starts at \<open>/*\<close> and ends with
  the first \<open>*/\<close> that begins at least two characters later; a \<open>/*\<close> that is never
  closed is kept. Comments do not nest.
\<close>

function removeBlockComments :: "jsstring \<Rightarrow> jsstring" where
  "removeBlockComments [] = []"
| "removeBlockComments (c # cs) =
     (if prefix (js ''/*'') (c # cs)
      then (case findBlockEnd (drop 1 cs) of
              Some rest \<Rightarrow> removeBlockComments rest
            | None \<Rightarrow> c # removeBlockComments cs)
      else c # removeBlockComments cs)"
  by pat_completeness auto
termination
proof (relation "measure length")
  show "wf (measure length)" by simp
next
  fix c :: jschar and cs rest :: jsstring
  assume found: "findBlockEnd (drop 1 cs) = Some rest"
  have shorter: "findBlockEnd xs = Some r \<Longrightarrow> length r < length xs" for xs r
    by (induction xs) (auto split: if_splits)
  from shorter [OF found] show "(rest, c # cs) \<in> measure length"
    by simp
next
  fix c :: jschar and cs :: jsstring
  show "(cs, c # cs) \<in> measure length" by simp
next
  fix c :: jschar and cs :: jsstring
  show "(cs, c # cs) \<in> measure length" by simp
qed

text \<open>
  One letter of the pattern \<open>SELECT\<close> under the flag \<open>i\<close> (without \<open>u\<close>): a code
  unit matches when its canonical form, its upper-case mapping, is the pattern's letter.
  For the letters S, E, L, C and T only the letter itself and its ASCII lower-case form
  do; the long s (U+017F) upper-cases to S but a code unit above 127 is never
  canonicalised to one below 128.
\<close>

definition matchLetterIgnoreCase :: "jschar \<Rightarrow> jschar \<Rightarrow> bool" where
  "matchLetterIgnoreCase p c \<longleftrightarrow> c = p \<or> c = p + 0x20"

text \<open>\<open>/^SELECT\s/i.test(cleaned)\<close>; without the flag \<open>m\<close>, \<open>^\<close> is the start of the text.\<close>

definition testSelectRegex :: "jsstring \<Rightarrow> bool" where
  "testSelectRegex cleaned \<longleftrightarrow>
     7 \<le> length cleaned
     \<and> list_all2 matchLetterIgnoreCase (js ''SELECT'') (take 6 cleaned)
     \<and> isWhiteSpace (cleaned ! 6)"

definition isSelectQuery :: "jsstring \<Rightarrow> bool" where
  "isSelectQuery sql =
     (let cleaned = trim sql;
          cleaned = removeLineComments cleaned;
          cleaned = removeBlockComments cleaned;
          cleaned = trim cleaned
      in testSelectRegex cleaned)"

text \<open>
  The contract of the validation as the specification words it, for comparison with
  \<open>isSelectQuery\<close>: the text is trimmed, every \<open>--\<close> comment is removed up to the end of
  its line, which is the next line feed (kept) or the end of the text, every block comment
  is removed, and what remains is trimmed and tested.
\<close>

function spec_stripLineComments :: "jsstring \<Rightarrow> jsstring" where
  "spec_stripLineComments [] = []"
| "spec_stripLineComments (c # cs) =
     (if prefix (js ''--'') (c # cs)
      then spec_stripLineComments (dropWhile (\<lambda>x. x \<noteq> LF) (drop 1 cs))
      else c # spec_stripLineComments cs)"
  by pat_completeness auto
termination
proof (relation "measure length")
  show "wf (measure length)" by simp
next
  fix c :: jschar and cs :: jsstring
  have "length (dropWhile (\<lambda>x. x \<noteq> LF) (drop 1 cs)) \<le> length (drop 1 cs)"
    by (rule length_dropWhile_le)
  then show "(dropWhile (\<lambda>x. x \<noteq> LF) (drop 1 cs), c # cs) \<in> measure length"
    by simp
next
  fix c :: jschar and cs :: jsstring
  show "(cs, c # cs) \<in> measure length" by simp
qed

definition spec_isSelectQuery :: "jsstring \<Rightarrow> bool" where
  "spec_isSelectQuery s =
     testSelectRegex (trim (removeBlockComments (spec_stripLineComments (trim s))))"

text \<open>Every \<open>--\<close> of the text has a line feed somewhere after it.\<close>

fun lineCommentsTerminated :: "jsstring \<Rightarrow> bool" where
  "lineCommentsTerminated [] = True"
| "lineCommentsTerminated (c # cs) =
     ((prefix (js ''--'') (c # cs) \<longrightarrow> LF \<in> set (drop 1 cs)) \<and> lineCommentsTerminated cs)"

section \<open>Identifier escaping and table references\<close>

text \<open>\<open>identifier.replace(/"/g, '""')\<close>, then the result between two double quotes.\<close>

definition escapeIdentifier :: "jsstring \<Rightarrow> jsstring" where
  "escapeIdentifier identifier =
     (let escaped = concat (map (\<lambda>c. if c = DQUOTE then [DQUOTE, DQUOTE] else [c]) identifier)
      in [DQUOTE] @ escaped @ [DQUOTE])"

text \<open>
  The inverse the round trip is stated with: drop the outer quotes and read every doubled
  double quote as one.
\<close>

fun collapseQuotes :: "jsstring \<Rightarrow> jsstring" where
  "collapseQuotes (a # b # cs) =
     (if a = DQUOTE \<and> b = DQUOTE then DQUOTE # collapseQuotes cs
      else a # collapseQuotes (b # cs))"
| "collapseQuotes cs = cs"

definition unescapeIdentifier :: "jsstring \<Rightarrow> jsstring" where
  "unescapeIdentifier quoted = collapseQuotes (butlast (tl quoted))"

text \<open>
  The loop \<open>for (const component of tablePath)\<close> of \<open>buildTableReference\<close>, returning the
  components as strings when none is rejected. A component that passes the test is a
  string, so the last case is never reached; it is what calling \<open>replace\<close> on a value that
  is not a string would raise.
\<close>

fun validateComponents :: "jsvalue list \<Rightarrow> error + jsstring list" where
  "validateComponents [] = Inr []"
| "validateComponents (component # rest) =
     (if \<not> truthy component \<or> typeof component \<noteq> js ''string''
      then Inl (Error (js ''Invalid table path component''))
      else (case component of
              JSString part \<Rightarrow>
                (case validateComponents rest of
                   Inl e \<Rightarrow> Inl e
                 | Inr parts \<Rightarrow> Inr (part # parts))
            | _ \<Rightarrow> Inl TypeError))"

text \<open>\<open>None\<close> is a path that is \<open>null\<close> or \<open>undefined\<close>.\<close>

definition buildTableReference :: "jsvalue list option \<Rightarrow> error + jsstring" where
  "buildTableReference tablePath =
     (case tablePath of
        None \<Rightarrow> Inl (Error (js ''Table path cannot be empty''))
      | Some components \<Rightarrow>
          if length components = 0 then Inl (Error (js ''Table path cannot be empty''))
          else (case validateComponents components of
                  Inl e \<Rightarrow> Inl e
                | Inr parts \<Rightarrow> Inr (join (js ''.'') (map escapeIdentifier parts))))"

section \<open>Percent-encoding\<close>

text \<open>
  \<open>encodeURIComponent\<close>: the unreserved characters (letters, digits and
  \<open>- _ . ! ~ * ' ( )\<close>) stand for themselves; any other code point is written as the
  octets of its UTF-8 encoding, each as \<open>%\<close> and two upper-case hexadecimal digits. A
  surrogate code unit that is not part of a pair raises \<open>URIError\<close>.
\<close>

definition uriUnreserved :: "jschar \<Rightarrow> bool" where
  "uriUnreserved c \<longleftrightarrow>
     c \<in> set (js ''ABCDEFGHIJKLMNOPQRSTUVWXYZabcdefghijklmnopqrstuvwxyz0123456789-_.!~*()'')
     \<or> c = 0x27"

definition hexDigit :: "nat \<Rightarrow> jschar" where
  "hexDigit n = js ''0123456789ABCDEF'' ! (n mod 16)"

definition percentOctet :: "nat \<Rightarrow> jsstring" where
  "percentOctet b = [0x25, hexDigit (b div 16), hexDigit (b mod 16)]"

definition utf8 :: "nat \<Rightarrow> nat list" where
  "utf8 cp =
     (if cp < 0x80 then [cp]
      else if cp < 0x800 then [0xC0 + cp div 64, 0x80 + cp mod 64]
      else if cp < 0x10000 then
        [0xE0 + cp div 4096, 0x80 + (cp div 64) mod 64, 0x80 + cp mod 64]
      else
        [0xF0 + cp div 262144, 0x80 + (cp div 4096) mod 64, 0x80 + (cp div 64) mod 64,
         0x80 + cp mod 64])"

definition percentEncode :: "nat \<Rightarrow> jsstring" where
  "percentEncode cp = concat (map percentOctet (utf8 cp))"

definition isLeadSurrogate :: "jschar \<Rightarrow> bool" where
  "isLeadSurrogate c \<longleftrightarrow> 0xD800 \<le> c \<and> c \<le> 0xDBFF"

definition isTrailSurrogate :: "jschar \<Rightarrow> bool" where
  "isTrailSurrogate c \<longleftrightarrow> 0xDC00 \<le> c \<and> c \<le> 0xDFFF"

definition pairCodePoint :: "jschar \<Rightarrow> jschar \<Rightarrow> nat" where
  "pairCodePoint lead trail = (unat lead - 0xD800) * 0x400 + (unat trail - 0xDC00) + 0x10000"

fun encodeURIComponent :: "jsstring \<Rightarrow> error + jsstring" where
  "encodeURIComponent [] = Inr []"
| "encodeURIComponent (c # cs) =
     (if uriUnreserved c then
        (case encodeURIComponent cs of Inl e \<Rightarrow> Inl e | Inr r \<Rightarrow> Inr (c # r))
      else if isTrailSurrogate c then Inl URIError
      else if isLeadSurrogate c then
        (case cs of
           [] \<Rightarrow> Inl URIError
         | d # ds \<Rightarrow>
             if isTrailSurrogate d then
               (case encodeURIComponent ds of
                  Inl e \<Rightarrow> Inl e
                | Inr r \<Rightarrow> Inr (percentEncode (pairCodePoint c d) @ r))
             else Inl URIError)
      else
        (case encodeURIComponent cs of
           Inl e \<Rightarrow> Inl e
         | Inr r \<Rightarrow> Inr (percentEncode (unat c) @ r)))"

text \<open>\<open>path.map(p => encodeURIComponent(p))\<close>: the first segment that raises ends the map.\<close>

fun encodeSegments :: "jsstring list \<Rightarrow> error + jsstring list" where
  "encodeSegments [] = Inr []"
| "encodeSegments (p # ps) =
     (case encodeURIComponent p of
        Inl e \<Rightarrow> Inl e
      | Inr q \<Rightarrow> (case encodeSegments ps of Inl e \<Rightarrow> Inl e | Inr qs \<Rightarrow> Inr (q # qs)))"

text \<open>The URL that \<open>getCatalog\<close> requests; \<open>None\<close> is a call without a path.\<close>

definition catalogUrl :: "jsstring list option \<Rightarrow> error + jsstring" where
  "catalogUrl path =
     (case path of
        None \<Rightarrow> Inr (js ''/api/v3/catalog'')
      | Some segments \<Rightarrow>
          if length segments > 0 then
            (case encodeSegments segments of
               Inl e \<Rightarrow> Inl e
             | Inr encoded \<Rightarrow> Inr (js ''/api/v3/catalog/'' @ join (js ''/'') encoded))
          else Inr (js ''/api/v3/catalog''))"

text \<open>
  The earlier revision of \<open>getCatalog\<close> (the one the repository's bug report describes),
  which joins the segments and encodes the joined text as one unit.
\<close>

definition catalogUrl_joined :: "jsstring list option \<Rightarrow> error + jsstring" where
  "catalogUrl_joined path =
     (let pathStr = (case path of None \<Rightarrow> [] | Some segments \<Rightarrow> join (js ''/'') segments)
      in if pathStr \<noteq> [] then
           (case encodeURIComponent pathStr of
              Inl e \<Rightarrow> Inl e
            | Inr encoded \<Rightarrow> Inr (js ''/api/v3/catalog/'' @ encoded))
         else Inr (js ''/api/v3/catalog''))"

text \<open>Splitting a text at every occurrence of a separator character.\<close>

fun splitAt :: "jschar \<Rightarrow> jsstring \<Rightarrow> jsstring list" where
  "splitAt sep [] = [[]]"
| "splitAt sep (c # cs) =
     (if c = sep then [] # splitAt sep cs
      else (case splitAt sep cs of [] \<Rightarrow> [[c]] | w # ws \<Rightarrow> (c # w) # ws))"

section \<open>Data model\<close>

text \<open>
  A catalog entity as the backend sends it. The interface declares \<open>path\<close> as an array of
  strings, but the code tests at run time that it is there and is an array, and likewise
  for \<open>children\<close>: \<open>None\<close> is a field that is missing or is not an array.
\<close>

datatype CatalogEntity =
  CatalogEntity
    (entity_id: jsstring)
    (path: "jsstring list option")
    (tag: jsstring)
    (entity_type: jsstring)
    (containerType: "jsstring option")
    (children: "CatalogEntity list option")

text \<open>
  The two shapes of a catalog response: an entity, or an envelope whose field \<open>data\<close>
  is truthy, an array of entities or (the branch \<open>else\<close> of \<open>searchCatalog\<close>) one entity.
\<close>

datatype CatalogData = DataArray "CatalogEntity list" | DataEntity CatalogEntity

datatype CatalogResponse = Bare CatalogEntity | Envelope CatalogData

record TableSchema =
  name :: jsstring
  ftype :: jsstring

text \<open>
  A row is an object; its properties are listed in the order \<open>Object.values\<close> enumerates
  them. The values have any type \<open>'v\<close>.
\<close>

type_synonym 'v row = "(jsstring \<times> 'v) list"

record 'v QueryResult =
  rowCount :: int
  schema :: "TableSchema list"
  rows :: "'v row list"

record ExplainResult =
  text_of :: jsstring

section \<open>The backend\<close>

text \<open>
  A request as the HTTP session sends it: \<open>GET url params.limit\<close> or \<open>POST url body.sql\<close>.
\<close>

datatype request = GET jsstring "int option" | POST jsstring jsstring

text \<open>
  How a request ends: the promise resolves with the response's data, or it is rejected
  with an axios error (its message and, when the server answered, the response).
\<close>

datatype 'a reply = Resolved 'a | Rejected jsstring "(jsstring \<times> jsstring) option"

record JobResponse =
  jobState :: jsstring
  errorMessage :: "jsstring option"
  queryError :: "jsstring option"

record 'v ResultsResponse =
  data_rowCount :: "int option"
  data_schema :: "TableSchema list option"
  data_rows :: "'v row list option"

text \<open>
  The backend is any function from the requests of one call to replies: each endpoint
  gets the number of requests sent before this one and the request's URL and payload.
  The submission of a statement resolves with the job's identifier (\<open>response.data.id\<close>).
  The pause of one second before each poll is not part of the model.
\<close>

record 'v backend =
  catalogEndpoint :: "nat \<Rightarrow> jsstring \<Rightarrow> CatalogResponse reply"
  sqlEndpoint :: "nat \<Rightarrow> jsstring \<Rightarrow> jsstring \<Rightarrow> jsstring reply"
  jobEndpoint :: "nat \<Rightarrow> jsstring \<Rightarrow> JobResponse reply"
  resultsEndpoint :: "nat \<Rightarrow> jsstring \<Rightarrow> int \<Rightarrow> 'v ResultsResponse reply"

section \<open>Catalog retrieval\<close>

text \<open>
  Every operation takes the requests sent so far and returns them extended, beside its
  result or the error it throws.
\<close>

definition getCatalog ::
  "'v backend \<Rightarrow> jsstring list option \<Rightarrow> request list
    \<Rightarrow> (error + CatalogResponse) \<times> request list" where
  "getCatalog b p tr =
     (case catalogUrl p of
        Inl e \<Rightarrow> (Inl e, tr)
      | Inr url \<Rightarrow>
          (case catalogEndpoint b (length tr) url of
             Rejected message response \<Rightarrow> (Inl (AxiosError message response), tr @ [GET url None])
           | Resolved data \<Rightarrow> (Inr data, tr @ [GET url None])))"

section \<open>Query execution\<close>

definition maxAttempts :: nat where
  "maxAttempts = 30"

definition isInFlight :: "jsstring \<Rightarrow> bool" where
  "isInFlight state \<longleftrightarrow>
     state = js ''RUNNING'' \<or> state = js ''STARTING'' \<or> state = js ''ENQUEUED''"

text \<open>The message of the error thrown for a job that is \<open>FAILED\<close> or \<open>CANCELED\<close>.\<close>

definition jobFailureMessage :: "JobResponse \<Rightarrow> jsstring" where
  "jobFailureMessage jobResponse =
     (let message =
            (case errorMessage jobResponse of
               None \<Rightarrow> js ''Unknown error''
             | Some m \<Rightarrow> if m = [] then js ''Unknown error'' else m);
          detail = (case queryError jobResponse of None \<Rightarrow> [] | Some d \<Rightarrow> d)
      in js ''Query failed with state: '' @ jobState jobResponse @ js ''. Error: ''
         @ message @ (if detail \<noteq> [] then js ''. Details: '' @ detail else []))"

text \<open>
  The loop \<open>while (jobState === 'RUNNING' || ...)\<close>, the variable \<open>jobState\<close> being
  \<open>state\<close> here: its result is the state the loop ends with, or the error thrown inside it.
\<close>

function pollJob ::
  "'v backend \<Rightarrow> jsstring \<Rightarrow> jsstring \<Rightarrow> nat \<Rightarrow> request list
    \<Rightarrow> (error + jsstring) \<times> request list" where
  "pollJob b jobId state attempts tr =
     (if isInFlight state then
        (if attempts \<ge> maxAttempts then (Inl (Error (js ''Query timeout'')), tr)
         else
           (let url = js ''/api/v3/job/'' @ jobId in
            case jobEndpoint b (length tr) url of
              Rejected message response \<Rightarrow>
                (Inl (AxiosError message response), tr @ [GET url None])
            | Resolved jobResponse \<Rightarrow>
                if jobState jobResponse = js ''FAILED'' \<or> jobState jobResponse = js ''CANCELED''
                then (Inl (Error (jobFailureMessage jobResponse)), tr @ [GET url None])
                else pollJob b jobId (jobState jobResponse) (attempts + 1)
                       (tr @ [GET url None])))
      else (Inr state, tr))"
  by pat_completeness auto
termination
  by (relation "measure (\<lambda>(b, jobId, state, attempts, tr). maxAttempts - attempts)") auto

declare pollJob.simps [simp del]

text \<open>The block \<open>try\<close> of \<open>executeQuery\<close>; \<open>None\<close> is a call without \<open>maxRows\<close>.\<close>

definition executeQuery_try ::
  "'v backend \<Rightarrow> jsstring \<Rightarrow> int option \<Rightarrow> request list
    \<Rightarrow> (error + 'v QueryResult) \<times> request list" where
  "executeQuery_try b sql maxRows tr =
     (let limitedMaxRows = min (case maxRows of None \<Rightarrow> 500 | Some m \<Rightarrow> m) 500;
          tr1 = tr @ [POST (js ''/api/v3/sql'') sql]
      in case sqlEndpoint b (length tr) (js ''/api/v3/sql'') sql of
           Rejected message response \<Rightarrow> (Inl (AxiosError message response), tr1)
         | Resolved jobId \<Rightarrow>
             (case pollJob b jobId (js ''RUNNING'') 0 tr1 of
                (Inl e, tr2) \<Rightarrow> (Inl e, tr2)
              | (Inr state, tr2) \<Rightarrow>
                  if state \<noteq> js ''COMPLETED''
                  then (Inl (Error (js ''Query failed with state: '' @ state)), tr2)
                  else
                    (let url = js ''/api/v3/job/'' @ jobId @ js ''/results'';
                         tr3 = tr2 @ [GET url (Some limitedMaxRows)]
                     in case resultsEndpoint b (length tr2) url limitedMaxRows of
                          Rejected message response \<Rightarrow>
                            (Inl (AxiosError message response), tr3)
                        | Resolved data \<Rightarrow>
                            (Inr \<lparr> rowCount = (case data_rowCount data of None \<Rightarrow> 0 | Some n \<Rightarrow> n),
                                   schema =
                                     (case data_schema data of
                                        None \<Rightarrow> []
                                      | Some fs \<Rightarrow>
                                          map (\<lambda>field. \<lparr> name = name field, ftype = ftype field \<rparr>)
                                            fs),
                                   rows = (case data_rows data of None \<Rightarrow> [] | Some r \<Rightarrow> r) \<rparr>,
                             tr3))))"

text \<open>
  The block \<open>catch\<close>: an error that carries a response is replaced by an \<open>Error\<close> with the
  status and the body in its message; any other error is thrown again as it is.
\<close>

definition rethrow :: "error \<Rightarrow> error" where
  "rethrow e =
     (case e of
        AxiosError message (Some (status, body)) \<Rightarrow>
          Error (js ''Query failed: '' @ message @ js ''. Status: '' @ status @ js ''. Data: ''
                 @ body)
      | _ \<Rightarrow> e)"

definition executeQuery ::
  "'v backend \<Rightarrow> jsstring \<Rightarrow> int option \<Rightarrow> request list
    \<Rightarrow> (error + 'v QueryResult) \<times> request list" where
  "executeQuery b sql maxRows tr =
     (case executeQuery_try b sql maxRows tr of
        (Inl e, tr') \<Rightarrow> (Inl (rethrow e), tr')
      | (Inr result, tr') \<Rightarrow> (Inr result, tr'))"

section \<open>Schema retrieval and table preview\<close>

definition getTableSchema ::
  "'v backend \<Rightarrow> jsvalue list option \<Rightarrow> request list
    \<Rightarrow> (error + TableSchema list) \<times> request list" where
  "getTableSchema b tablePath tr =
     (case buildTableReference tablePath of
        Inl e \<Rightarrow> (Inl e, tr)
      | Inr tableRef \<Rightarrow>
          (let query = js ''SELECT * FROM '' @ tableRef @ js '' LIMIT 0'' in
           case executeQuery b query None tr of
             (Inl e, tr') \<Rightarrow> (Inl e, tr')
           | (Inr result, tr') \<Rightarrow> (Inr (schema result), tr')))"

definition previewTable ::
  "'v backend \<Rightarrow> jsvalue list option \<Rightarrow> request list
    \<Rightarrow> (error + 'v QueryResult) \<times> request list" where
  "previewTable b tablePath tr =
     (case buildTableReference tablePath of
        Inl e \<Rightarrow> (Inl e, tr)
      | Inr tableRef \<Rightarrow>
          (let query = js ''SELECT * FROM '' @ tableRef @ js '' LIMIT 10'' in
           executeQuery b query (Some 10) tr))"

section \<open>Catalog search\<close>

text \<open>
  The expression \<open>entity.path[entity.path.length - 1] || ''\<close>: reading \<open>length\<close> of a
  path that is not there raises \<open>TypeError\<close>; the last element of an empty array is
  \<open>undefined\<close>, for which \<open>||\<close> gives the empty string.
\<close>

text \<open>
  The guard \<open>entity.path && Array.isArray(entity.path) && entity.path.length > 0\<close>.
\<close>

definition hasPath :: "jsstring list option \<Rightarrow> bool" where
  "hasPath p = (case p of None \<Rightarrow> False | Some segments \<Rightarrow> length segments > 0)"

definition lastSegment :: "jsstring list option \<Rightarrow> error + jsstring" where
  "lastSegment p =
     (case p of
        None \<Rightarrow> Inl TypeError
      | Some segments \<Rightarrow> Inr (if segments = [] then [] else last segments))"

text \<open>
  \<open>searchRecursive\<close> with the array \<open>results\<close> it appends to passed through, and the loop
  over the children. \<open>lower\<close> is \<open>String.prototype.toLowerCase\<close>, and \<open>lastName\<close> the
  constant \<open>name\<close> of the source.
\<close>

fun searchRecursive ::
    "(jsstring \<Rightarrow> jsstring) \<Rightarrow> jsstring \<Rightarrow> CatalogEntity \<Rightarrow> CatalogEntity list
      \<Rightarrow> error + CatalogEntity list"
  and searchEach ::
    "(jsstring \<Rightarrow> jsstring) \<Rightarrow> jsstring \<Rightarrow> CatalogEntity list \<Rightarrow> CatalogEntity list
      \<Rightarrow> error + CatalogEntity list" where
  "searchRecursive lower searchTerm (CatalogEntity i p t ty ct ch) results =
     (let entity = CatalogEntity i p t ty ct ch;
          visited =
            (if hasPath p then
               (case lastSegment p of
                  Inl e \<Rightarrow> Inl e
                | Inr lastName \<Rightarrow>
                    if includes_str (lower lastName) (lower searchTerm)
                    then Inr (results @ [entity])
                    else Inr results)
             else Inr results)
      in case visited of
           Inl e \<Rightarrow> Inl e
         | Inr results' \<Rightarrow>
             (case ch of
                Some cs \<Rightarrow> searchEach lower searchTerm cs results'
              | None \<Rightarrow> Inr results'))"
| "searchEach lower searchTerm [] results = Inr results"
| "searchEach lower searchTerm (child # rest) results =
     (case searchRecursive lower searchTerm child results of
        Inl e \<Rightarrow> Inl e
      | Inr results' \<Rightarrow> searchEach lower searchTerm rest results')"

definition searchCatalog ::
  "(jsstring \<Rightarrow> jsstring) \<Rightarrow> 'v backend \<Rightarrow> jsstring \<Rightarrow> request list
    \<Rightarrow> (error + CatalogEntity list) \<times> request list" where
  "searchCatalog lower b searchTerm tr =
     (case getCatalog b None tr of
        (Inl e, tr') \<Rightarrow> (Inl e, tr')
      | (Inr rootCatalog, tr') \<Rightarrow>
          (let catalogData =
                 (case rootCatalog of
                    Envelope d \<Rightarrow> d
                  | Bare entity \<Rightarrow> DataArray [entity])
           in case catalogData of
                DataArray entities \<Rightarrow> (searchEach lower searchTerm entities [], tr')
              | DataEntity entity \<Rightarrow> (searchRecursive lower searchTerm entity [], tr')))"

text \<open>
  What the search is specified to return: the entities in depth-first order, parents
  before children, and the test an entity must pass.
\<close>

fun preorder :: "CatalogEntity \<Rightarrow> CatalogEntity list" where
  "preorder (CatalogEntity i p t ty ct ch) =
     CatalogEntity i p t ty ct ch
     # (case ch of None \<Rightarrow> [] | Some cs \<Rightarrow> concat (map preorder cs))"

definition visitOrder :: "CatalogResponse \<Rightarrow> CatalogEntity list" where
  "visitOrder response =
     (case response of
        Bare entity \<Rightarrow> preorder entity
      | Envelope (DataArray entities) \<Rightarrow> concat (map preorder entities)
      | Envelope (DataEntity entity) \<Rightarrow> preorder entity)"

definition matchesTerm :: "(jsstring \<Rightarrow> jsstring) \<Rightarrow> jsstring \<Rightarrow> CatalogEntity \<Rightarrow> bool" where
  "matchesTerm lower searchTerm entity \<longleftrightarrow>
     (case path entity of
        None \<Rightarrow> False
      | Some segments \<Rightarrow>
          segments \<noteq> [] \<and> includes_str (lower (last segments)) (lower searchTerm))"

section \<open>Explain\<close>

text \<open>
  \<open>valueToString\<close> is the conversion \<open>Array.prototype.join\<close> applies to an element: the
  empty string for \<open>undefined\<close> and \<open>null\<close>, \<open>ToString\<close> otherwise.
\<close>

definition explainQuery ::
  "('v \<Rightarrow> jsstring) \<Rightarrow> 'v backend \<Rightarrow> jsstring \<Rightarrow> request list
    \<Rightarrow> (error + ExplainResult) \<times> request list" where
  "explainQuery valueToString b sql tr =
     (if \<not> isSelectQuery sql
      then (Inl (Error (js ''Only SELECT queries can be explained'')), tr)
      else
        (let explainSql = js ''EXPLAIN PLAN FOR '' @ sql in
         case executeQuery b explainSql None tr of
           (Inl e, tr') \<Rightarrow> (Inl e, tr')
         | (Inr result, tr') \<Rightarrow>
             (Inr \<lparr> text_of =
                      join [LF]
                        (map (\<lambda>row. join (js '' '') (map valueToString (map snd row)))
                           (rows result)) \<rparr>,
              tr')))"

section \<open>Concrete backends and catalogs\<close>

text \<open>An ASCII-only instance of \<open>toLowerCase\<close>, enough for the examples below.\<close>

definition asciiLower :: "jsstring \<Rightarrow> jsstring" where
  "asciiLower s = map (\<lambda>c. if 0x41 \<le> c \<and> c \<le> 0x5A then c + 0x20 else c) s"

text \<open>A backend whose job never leaves \<open>RUNNING\<close>.\<close>

definition stuckBackend :: "jsstring backend" where
  "stuckBackend =
     \<lparr> catalogEndpoint = (\<lambda>n url. Rejected (js ''Request failed with status code 404'') None),
       sqlEndpoint = (\<lambda>n url sql. Resolved (js ''job-1'')),
       jobEndpoint =
         (\<lambda>n url. Resolved \<lparr> jobState = js ''RUNNING'', errorMessage = None, queryError = None \<rparr>),
       resultsEndpoint = (\<lambda>n url limit. Rejected (js ''Request failed with status code 400'') None) \<rparr>"

text \<open>A backend whose job runs for two polls and has failed at the third.\<close>

definition failingBackend :: "jsstring backend" where
  "failingBackend =
     \<lparr> catalogEndpoint = (\<lambda>n url. Rejected (js ''Request failed with status code 404'') None),
       sqlEndpoint = (\<lambda>n url sql. Resolved (js ''job-2'')),
       jobEndpoint =
         (\<lambda>n url.
            if n < 3
            then Resolved \<lparr> jobState = js ''RUNNING'', errorMessage = None, queryError = None \<rparr>
            else Resolved \<lparr> jobState = js ''FAILED'',
                            errorMessage = Some (js ''Table not found''),
                            queryError = Some (js ''line 1'') \<rparr>),
       resultsEndpoint = (\<lambda>n url limit. Rejected (js ''Request failed with status code 400'') None) \<rparr>"

text \<open>
  A backend whose job is complete at the first poll and whose results page holds two
  rows whatever limit it is asked for.
\<close>

definition overfullRows :: "jsstring row list" where
  "overfullRows = [[(js ''n'', js ''1'')], [(js ''n'', js ''2'')]]"

definition overfullBackend :: "jsstring backend" where
  "overfullBackend =
     \<lparr> catalogEndpoint = (\<lambda>n url. Rejected (js ''Request failed with status code 404'') None),
       sqlEndpoint = (\<lambda>n url sql. Resolved (js ''job-3'')),
       jobEndpoint =
         (\<lambda>n url. Resolved \<lparr> jobState = js ''COMPLETED'', errorMessage = None, queryError = None \<rparr>),
       resultsEndpoint =
         (\<lambda>n url limit.
            Resolved \<lparr> data_rowCount = Some 2, data_schema = None, data_rows = Some overfullRows \<rparr>) \<rparr>"

text \<open>A backend that answers every statement with a plan of two rows.\<close>

definition planBackend :: "jsstring backend" where
  "planBackend =
     \<lparr> catalogEndpoint = (\<lambda>n url. Rejected (js ''Request failed with status code 404'') None),
       sqlEndpoint = (\<lambda>n url sql. Resolved (js ''job-4'')),
       jobEndpoint =
         (\<lambda>n url. Resolved \<lparr> jobState = js ''COMPLETED'', errorMessage = None, queryError = None \<rparr>),
       resultsEndpoint =
         (\<lambda>n url limit.
            Resolved \<lparr> data_rowCount = Some 2, data_schema = None,
                        data_rows = Some [[(js ''text'', js ''Project''), (js ''json'', js ''{}'')],
                                          [(js ''text'', js ''Scan''), (js ''json'', js ''[]'')]] \<rparr>) \<rparr>"

text \<open>
  A root catalog in an envelope: a space with three children, one without a path, one
  dataset, and one whose path is empty.
\<close>

definition customers :: CatalogEntity where
  "customers =
     CatalogEntity (js ''id-2'') (Some [js ''Sales'', js ''Customers'']) (js ''t2'') (js ''DATASET'')
       None None"

definition sales :: CatalogEntity where
  "sales =
     CatalogEntity (js ''id-1'') (Some [js ''Sales'']) (js ''t1'') (js ''CONTAINER'')
       (Some (js ''SPACE''))
       (Some [CatalogEntity (js ''id-3'') None (js ''t3'') (js ''CONTAINER'') None None,
              customers,
              CatalogEntity (js ''id-4'') (Some []) (js ''t4'') (js ''CONTAINER'') None (Some [])])"

definition catalogBackend :: "jsstring backend" where
  "catalogBackend =
     \<lparr> catalogEndpoint = (\<lambda>n url. Resolved (Envelope (DataArray [sales]))),
       sqlEndpoint = (\<lambda>n url sql. Rejected (js ''Request failed with status code 400'') None),
       jobEndpoint = (\<lambda>n url. Rejected (js ''Request failed with status code 404'') None),
       resultsEndpoint = (\<lambda>n url limit. Rejected (js ''Request failed with status code 404'') None) \<rparr>"

section \<open>Properties of the SQL validation\<close>

lemma lineCommentsTerminated_drop:
  "lineCommentsTerminated s \<Longrightarrow> lineCommentsTerminated (drop n s)"
proof (induction s arbitrary: n)
  case Nil
  then show ?case by simp
next
  case (Cons c cs)
  then show ?case by (cases n) simp_all
qed

lemma lineCommentsTerminated_dropWhile:
  "lineCommentsTerminated s \<Longrightarrow> lineCommentsTerminated (dropWhile P s)"
  by (induction s) simp_all

lemma LF_not_dash: "\<not> prefix (js ''--'') (LF # rest)"
  by (simp add: js_def LF_def)

lemma removeLineComments_spec:
  "lineCommentsTerminated s \<Longrightarrow> removeLineComments s = spec_stripLineComments s"
proof (induction s rule: removeLineComments.induct)
  case 1
  show ?case by simp
next
  case (2 c cs)
  show ?case
  proof (cases "prefix (js ''--'') (c # cs)")
    case False
    with 2 show ?thesis by simp
  next
    case True
    with "2.prems" have lf: "LF \<in> set (drop 1 cs)" by simp
    then obtain rest where dw: "dropWhile (\<lambda>x. x \<noteq> LF) (drop 1 cs) = LF # rest"
      by (metis (mono_tags, lifting) dropWhile_eq_Nil_conv hd_dropWhile list.exhaust_sel)
    from dw have r: "drop 1 (dropWhile (\<lambda>x. x \<noteq> LF) (drop 1 cs)) = rest" by simp
    have "lineCommentsTerminated (drop 1 (dropWhile (\<lambda>x. x \<noteq> LF) (drop 1 cs)))"
      using "2.prems"
      by (intro lineCommentsTerminated_drop lineCommentsTerminated_dropWhile) simp
    then have lt: "lineCommentsTerminated rest" unfolding r .
    have cond: "prefix (js ''--'') (c # cs) \<and> LF \<in> set (drop 1 cs)"
      using True lf by blast
    from "2.IH"(1) [OF cond, unfolded r, OF lt]
    have ih: "removeLineComments rest = spec_stripLineComments rest" .
    have "removeLineComments (c # cs) = LF # removeLineComments rest"
      using cond r by simp
    moreover have "spec_stripLineComments (c # cs) = LF # spec_stripLineComments rest"
      using True dw LF_not_dash by simp
    ultimately show ?thesis using ih by simp
  qed
qed

lemma isSelectQuery_spec:
  "lineCommentsTerminated (trim s) \<Longrightarrow> isSelectQuery s = spec_isSelectQuery s"
  by (simp add: isSelectQuery_def spec_isSelectQuery_def removeLineComments_spec)

lemma isSelectQuery_examples:
  "isSelectQuery (js ''SELECT 1'')"
  "isSelectQuery (js ''  -- comment'' @ [LF] @ js ''SELECT 1'')"
  "isSelectQuery (js ''/* x */ select * from t'')"
  "\<not> isSelectQuery (js ''DROP TABLE t'')"
  "\<not> isSelectQuery (js ''SELECTX'')"
  "\<not> isSelectQuery []"
  "\<not> isSelectQuery (js ''-- only a comment'')"
  "\<not> isSelectQuery (js ''/* only a comment */'')"
  by code_simp+

text \<open>
  C1. \<open>isSelectQuery\<close> is specified to answer as if every \<open>--\<close> comment, up to the end of
  its line, and every block comment had been removed and the rest trimmed. A \<open>--\<close>
  comment that ends the text, with no line feed after it once the text is trimmed, is not
  removed: on \<open>SELECT --x\<close> the function answers true, where the specified stripping
  leaves the bare keyword and answers false, as the function itself does when the trailing
  comment is a block comment or is absent.
\<close>

theorem isSelectQuery_trailing_line_comment:
  "isSelectQuery (js ''SELECT --x'')
   \<and> \<not> spec_isSelectQuery (js ''SELECT --x'')
   \<and> isSelectQuery (js ''SELECT'' @ [LF] @ js ''--x'' @ [LF])
   \<and> \<not> spec_isSelectQuery (js ''SELECT'' @ [LF] @ js ''--x'' @ [LF])
   \<and> \<not> isSelectQuery (js ''SELECT /* x */'')
   \<and> \<not> isSelectQuery (js ''SELECT'')"
  by code_simp

section \<open>Properties of identifier escaping\<close>

lemma collapseQuotes_escaped:
  "collapseQuotes (concat (map (\<lambda>c. if c = DQUOTE then [DQUOTE, DQUOTE] else [c]) s)) = s"
proof (induction s)
  case Nil
  show ?case by simp
next
  case (Cons c cs)
  show ?case
  proof (cases "c = DQUOTE")
    case True
    with Cons show ?thesis by simp
  next
    case False
    show ?thesis
    proof (cases "concat (map (\<lambda>c. if c = DQUOTE then [DQUOTE, DQUOTE] else [c]) cs)")
      case Nil
      with Cons False show ?thesis by simp
    next
      case (Cons d ds)
      with Cons.IH False show ?thesis by simp
    qed
  qed
qed

lemma unescape_escape: "unescapeIdentifier (escapeIdentifier s) = s"
  by (simp add: unescapeIdentifier_def escapeIdentifier_def butlast_append collapseQuotes_escaped)

text \<open>
  C9. Escaping is injective: distinct segments have distinct escaped forms; and dropping the
  outer double quotes of an escaped identifier and reading every doubled double quote as
  one gives the segment back.
\<close>

theorem escapeIdentifier_injective_roundtrip:
  "(a \<noteq> b \<longrightarrow> escapeIdentifier a \<noteq> escapeIdentifier b)
   \<and> unescapeIdentifier (escapeIdentifier a) = a"
proof
  show "a \<noteq> b \<longrightarrow> escapeIdentifier a \<noteq> escapeIdentifier b"
  proof (intro impI notI)
    assume "a \<noteq> b" and eq: "escapeIdentifier a = escapeIdentifier b"
    from eq have "unescapeIdentifier (escapeIdentifier a) = unescapeIdentifier (escapeIdentifier b)"
      by simp
    then have "a = b" by (simp only: unescape_escape)
    with \<open>a \<noteq> b\<close> show False by contradiction
  qed
  show "unescapeIdentifier (escapeIdentifier a) = a" by (rule unescape_escape)
qed

theorem escapeIdentifier_injective_roundtrip_witness:
  "js ''a'' \<noteq> [0x61, DQUOTE, 0x62]
   \<and> escapeIdentifier (js ''a'') \<noteq> escapeIdentifier [0x61, DQUOTE, 0x62]
   \<and> escapeIdentifier [0x61, DQUOTE, 0x62] = [DQUOTE, 0x61, DQUOTE, DQUOTE, 0x62, DQUOTE]
   \<and> unescapeIdentifier [DQUOTE, 0x61, DQUOTE, DQUOTE, 0x62, DQUOTE] = [0x61, DQUOTE, 0x62]"
proof -
  have ne: "js ''a'' \<noteq> [0x61, DQUOTE, 0x62]" by (simp add: js_def)
  have esc: "escapeIdentifier [0x61, DQUOTE, 0x62] = [DQUOTE, 0x61, DQUOTE, DQUOTE, 0x62, DQUOTE]"
    by (simp add: escapeIdentifier_def DQUOTE_def)
  from escapeIdentifier_injective_roundtrip [of "js ''a''" "[0x61, DQUOTE, 0x62]"] ne
  have "escapeIdentifier (js ''a'') \<noteq> escapeIdentifier [0x61, DQUOTE, 0x62]" by blast
  moreover
  from escapeIdentifier_injective_roundtrip [of "[0x61, DQUOTE, 0x62]" "[]"] esc
  have "unescapeIdentifier [DQUOTE, 0x61, DQUOTE, DQUOTE, 0x62, DQUOTE] = [0x61, DQUOTE, 0x62]"
    by simp
  ultimately show ?thesis using ne esc by blast
qed

lemma js_string_neq [simp]:
  "js ''undefined'' \<noteq> js ''string''" "js ''object'' \<noteq> js ''string''"
  "js ''boolean'' \<noteq> js ''string''" "js ''number'' \<noteq> js ''string''"
  by (simp_all add: js_def)

lemma validateComponents_strings:
  "\<forall>s\<in>set parts. s \<noteq> [] \<Longrightarrow> validateComponents (map JSString parts) = Inr parts"
  by (induction parts) simp_all

lemma validateComponents_invalid:
  "\<exists>c\<in>set components. \<not> (\<exists>s. c = JSString s \<and> s \<noteq> []) \<Longrightarrow>
   validateComponents components = Inl (Error (js ''Invalid table path component''))"
proof (induction components)
  case Nil
  then show ?case by simp
next
  case (Cons c cs)
  show ?case
  proof (cases c)
    case (JSString s)
    show ?thesis
    proof (cases "s = []")
      case True
      with JSString show ?thesis by simp
    next
      case False
      with JSString Cons.prems have "\<exists>c\<in>set cs. \<not> (\<exists>s. c = JSString s \<and> s \<noteq> [])" by auto
      from Cons.IH [OF this] JSString False show ?thesis by simp
    qed
  qed simp_all
qed

text \<open>
  C4. Building a table reference fails for a path that is missing or empty, and for a path
  with a component that is not a non-empty string; for a path of non-empty strings it is
  the escaped components joined with a dot, each component escaped on its own by doubling
  its double quotes and wrapping it in double quotes.
\<close>

theorem buildTableReference_contract:
  "buildTableReference None = Inl (Error (js ''Table path cannot be empty''))
   \<and> buildTableReference (Some []) = Inl (Error (js ''Table path cannot be empty''))
   \<and> (components \<noteq> [] \<and> (\<exists>c\<in>set components. \<not> (\<exists>s. c = JSString s \<and> s \<noteq> []))
        \<longrightarrow> buildTableReference (Some components)
              = Inl (Error (js ''Invalid table path component'')))
   \<and> (parts \<noteq> [] \<and> (\<forall>s\<in>set parts. s \<noteq> [])
        \<longrightarrow> buildTableReference (Some (map JSString parts))
              = Inr (join (js ''.'') (map escapeIdentifier parts)))
   \<and> escapeIdentifier part
       = [DQUOTE] @ concat (map (\<lambda>c. if c = DQUOTE then [DQUOTE, DQUOTE] else [c]) part)
         @ [DQUOTE]"
  by (auto simp: buildTableReference_def validateComponents_strings validateComponents_invalid
        escapeIdentifier_def)

theorem buildTableReference_contract_witness:
  "buildTableReference (Some [JSString (js ''s''), JSNumber 4])
     = Inl (Error (js ''Invalid table path component''))
   \<and> buildTableReference (Some [JSString (js ''s''), JSString []])
     = Inl (Error (js ''Invalid table path component''))
   \<and> buildTableReference (Some [JSString (js ''s''), JSString (js ''t'')])
     = Inr ([DQUOTE] @ js ''s'' @ [DQUOTE] @ js ''.'' @ [DQUOTE] @ js ''t'' @ [DQUOTE])
   \<and> escapeIdentifier (js ''a'' @ [DQUOTE] @ js ''b'')
     = [DQUOTE] @ js ''a'' @ [DQUOTE, DQUOTE] @ js ''b'' @ [DQUOTE]"
proof -
  have bad1: "[JSString (js ''s''), JSNumber 4] \<noteq> []
              \<and> (\<exists>c\<in>set [JSString (js ''s''), JSNumber 4]. \<not> (\<exists>s. c = JSString s \<and> s \<noteq> []))"
    by simp
  have bad2: "[JSString (js ''s''), JSString []] \<noteq> []
              \<and> (\<exists>c\<in>set [JSString (js ''s''), JSString []]. \<not> (\<exists>s. c = JSString s \<and> s \<noteq> []))"
    by simp
  have good: "[js ''s'', js ''t''] \<noteq> [] \<and> (\<forall>s\<in>set [js ''s'', js ''t'']. s \<noteq> [])"
    by (simp add: js_def)
  from buildTableReference_contract [of "[JSString (js ''s''), JSNumber 4]" "[js ''s'', js ''t'']"
         "js ''a'' @ [DQUOTE] @ js ''b''"] bad1 good
  have a: "buildTableReference (Some [JSString (js ''s''), JSNumber 4])
             = Inl (Error (js ''Invalid table path component''))"
    and c: "buildTableReference (Some (map JSString [js ''s'', js ''t'']))
             = Inr (join (js ''.'') (map escapeIdentifier [js ''s'', js ''t'']))"
    and d: "escapeIdentifier (js ''a'' @ [DQUOTE] @ js ''b'')
             = [DQUOTE] @ concat (map (\<lambda>c. if c = DQUOTE then [DQUOTE, DQUOTE] else [c])
                 (js ''a'' @ [DQUOTE] @ js ''b'')) @ [DQUOTE]"
    by blast+
  from buildTableReference_contract [of "[JSString (js ''s''), JSString []]" "[js ''s'', js ''t'']" "[]"]
       bad2
  have b: "buildTableReference (Some [JSString (js ''s''), JSString []])
             = Inl (Error (js ''Invalid table path component''))"
    by blast
  have j: "join (js ''.'') (map escapeIdentifier [js ''s'', js ''t''])
             = [DQUOTE] @ js ''s'' @ [DQUOTE] @ js ''.'' @ [DQUOTE] @ js ''t'' @ [DQUOTE]"
    by (simp add: escapeIdentifier_def js_def DQUOTE_def)
  have e: "concat (map (\<lambda>c. if c = DQUOTE then [DQUOTE, DQUOTE] else [c])
                 (js ''a'' @ [DQUOTE] @ js ''b'')) = js ''a'' @ [DQUOTE, DQUOTE] @ js ''b''"
    by (simp add: js_def DQUOTE_def)
  from a b c d show ?thesis unfolding j e by simp
qed

lemma table_operations_reject_invalid_path:
  "buildTableReference tablePath = Inl e \<Longrightarrow>
   getTableSchema b tablePath tr = (Inl e, tr) \<and> previewTable b tablePath tr = (Inl e, tr)"
  by (simp add: getTableSchema_def previewTable_def)

section \<open>Properties of catalog retrieval\<close>

lemma unreserved_not_slash: "uriUnreserved c \<Longrightarrow> c \<noteq> 0x2F"
  by (auto simp: uriUnreserved_def js_def)

lemma hexDigit_not_slash: "hexDigit n \<noteq> 0x2F"
proof -
  have "n mod 16 < length (js ''0123456789ABCDEF'')" by (simp add: js_def)
  then have "hexDigit n \<in> set (js ''0123456789ABCDEF'')"
    unfolding hexDigit_def by (rule nth_mem)
  moreover have "0x2F \<notin> set (js ''0123456789ABCDEF'')" by (simp add: js_def)
  ultimately show ?thesis by metis
qed

lemma percentEncode_no_slash: "0x2F \<notin> set (percentEncode cp)"
  using hexDigit_not_slash [symmetric]
  by (auto simp: percentEncode_def percentOctet_def utf8_def)

lemma encodeURIComponent_no_slash:
  "encodeURIComponent s = Inr q \<Longrightarrow> 0x2F \<notin> set q"
proof (induction s arbitrary: q rule: encodeURIComponent.induct)
  case 1
  then show ?case by simp
next
  case (2 c cs)
  show ?case
  proof (cases "uriUnreserved c")
    case True
    with "2.prems" obtain r where r: "encodeURIComponent cs = Inr r" and q: "q = c # r"
      by (auto split: sum.splits)
    from "2.IH"(1) [OF True r] unreserved_not_slash [OF True] q show ?thesis by auto
  next
    case False
    show ?thesis
    proof (cases "isTrailSurrogate c")
      case True
      with False "2.prems" show ?thesis by simp
    next
      case nt: False
      show ?thesis
      proof (cases "isLeadSurrogate c")
        case True
        with False nt "2.prems" obtain d ds r where cs: "cs = d # ds"
          and d: "isTrailSurrogate d" and r: "encodeURIComponent ds = Inr r"
          and q: "q = percentEncode (pairCodePoint c d) @ r"
          by (auto split: list.splits if_splits sum.splits)
        from "2.IH"(2) [OF False nt True cs d r] q percentEncode_no_slash show ?thesis by auto
      next
        case nl: False
        with False nt "2.prems" obtain r where r: "encodeURIComponent cs = Inr r"
          and q: "q = percentEncode (unat c) @ r"
          by (auto split: sum.splits)
        from "2.IH"(3) [OF False nt nl r] q percentEncode_no_slash show ?thesis by auto
      qed
    qed
  qed
qed

lemma encodeURIComponent_error: "encodeURIComponent s = Inl e \<Longrightarrow> e = URIError"
  by (induction s rule: encodeURIComponent.induct)
     (auto split: if_splits sum.splits list.splits)

lemma encodeSegments_Inr_D:
  "encodeSegments ps = Inr qs \<Longrightarrow> map encodeURIComponent ps = map Inr qs"
  by (induction ps arbitrary: qs) (auto split: sum.splits)

lemma encodeSegments_Inl:
  "encodeSegments ps = Inl e \<Longrightarrow> e = URIError \<and> (\<exists>p\<in>set ps. encodeURIComponent p = Inl URIError)"
  by (induction ps) (auto split: sum.splits dest: encodeURIComponent_error)

lemma splitAt_no_sep: "sep \<notin> set x \<Longrightarrow> splitAt sep x = [x]"
  by (induction x) auto

lemma splitAt_append_sep: "sep \<notin> set x \<Longrightarrow> splitAt sep (x @ sep # rest) = x # splitAt sep rest"
  by (induction x) auto

lemma splitAt_join:
  "xs \<noteq> [] \<Longrightarrow> \<forall>x\<in>set xs. sep \<notin> set x \<Longrightarrow> splitAt sep (join [sep] xs) = xs"
  by (induction "[sep]" xs rule: join.induct) (simp_all add: splitAt_no_sep splitAt_append_sep)

lemma catalogUrl_segments:
  assumes "segments \<noteq> []"
  shows "(\<exists>encoded.
            map encodeURIComponent segments = map Inr encoded
            \<and> catalogUrl (Some segments) = Inr (js ''/api/v3/catalog/'' @ join (js ''/'') encoded)
            \<and> splitAt 0x2F (join (js ''/'') encoded) = encoded)
         \<or> ((\<exists>s\<in>set segments. encodeURIComponent s = Inl URIError)
            \<and> catalogUrl (Some segments) = Inl URIError)"
proof (cases "encodeSegments segments")
  case (Inl e)
  from encodeSegments_Inl [OF Inl] Inl assms show ?thesis
    by (auto simp: catalogUrl_def)
next
  case (Inr encoded)
  then have m: "map encodeURIComponent segments = map Inr encoded"
    by (rule encodeSegments_Inr_D)
  then have len: "length encoded = length segments"
    by (metis length_map)
  with assms have ne: "encoded \<noteq> []" by auto
  have "\<forall>q\<in>set encoded. 0x2F \<notin> set q"
  proof
    fix q assume "q \<in> set encoded"
    then obtain i where i: "i < length encoded" and q: "q = encoded ! i"
      by (auto simp: in_set_conv_nth)
    from m i len have "encodeURIComponent (segments ! i) = Inr (encoded ! i)"
      by (metis nth_map)
    with q show "0x2F \<notin> set q" by (auto dest: encodeURIComponent_no_slash)
  qed
  with ne have "splitAt 0x2F (join [0x2F] encoded) = encoded"
    by (rule splitAt_join)
  moreover have "js ''/'' = [0x2F]" by (simp add: js_def)
  ultimately have "splitAt 0x2F (join (js ''/'') encoded) = encoded" by simp
  with m Inr assms show ?thesis by (auto simp: catalogUrl_def)
qed

lemma getCatalog_url:
  "catalogUrl p = Inr url \<Longrightarrow>
   getCatalog b p tr
     = (case catalogEndpoint b (length tr) url of
          Rejected message response \<Rightarrow> Inl (AxiosError message response)
        | Resolved data \<Rightarrow> Inr data,
        tr @ [GET url None])"
  by (simp add: getCatalog_def split: reply.splits)

lemma getCatalog_no_url: "catalogUrl p = Inl e \<Longrightarrow> getCatalog b p tr = (Inl e, tr)"
  by (simp add: getCatalog_def)

text \<open>
  C2. For a path that is not empty, \<open>getCatalog\<close> sends one request, to the URL made of the
  prefix \<open>/api/v3/catalog/\<close> followed by the segments, each percent-encoded on its own,
  joined with \<open>/\<close>, and returns what the backend answers. No encoded segment contains a
  \<open>/\<close>, so splitting the path at \<open>/\<close> gives the encoded segments back: the separators
  are never encoded. The only other outcome is \<open>URIError\<close>, with no request sent, when a
  segment holds a lone surrogate.
\<close>

theorem getCatalog_encodes_each_segment:
  assumes "segments \<noteq> []"
  shows "(\<exists>encoded.
            map encodeURIComponent segments = map Inr encoded
            \<and> splitAt 0x2F (join (js ''/'') encoded) = encoded
            \<and> catalogUrl (Some segments) = Inr (js ''/api/v3/catalog/'' @ join (js ''/'') encoded)
            \<and> getCatalog b (Some segments) tr
                = (case catalogEndpoint b (length tr)
                          (js ''/api/v3/catalog/'' @ join (js ''/'') encoded) of
                     Rejected message response \<Rightarrow> Inl (AxiosError message response)
                   | Resolved data \<Rightarrow> Inr data,
                   tr @ [GET (js ''/api/v3/catalog/'' @ join (js ''/'') encoded) None]))
         \<or> ((\<exists>s\<in>set segments. encodeURIComponent s = Inl URIError)
            \<and> catalogUrl (Some segments) = Inl URIError
            \<and> getCatalog b (Some segments) tr = (Inl URIError, tr))"
proof -
  from catalogUrl_segments [OF assms]
  consider (ok) encoded where "map encodeURIComponent segments = map Inr encoded"
      "catalogUrl (Some segments) = Inr (js ''/api/v3/catalog/'' @ join (js ''/'') encoded)"
      "splitAt 0x2F (join (js ''/'') encoded) = encoded"
    | (err) "\<exists>s\<in>set segments. encodeURIComponent s = Inl URIError"
      "catalogUrl (Some segments) = Inl URIError"
    by blast
  then show ?thesis
  proof cases
    case ok
    from getCatalog_url [OF ok(2), of b tr] ok show ?thesis by blast
  next
    case err
    from getCatalog_no_url [OF err(2), of b tr] err show ?thesis by blast
  qed
qed

theorem getCatalog_encodes_each_segment_witness:
  "[js ''a'', js ''b/c''] \<noteq> []
   \<and> catalogUrl (Some [js ''a'', js ''b/c'']) = Inr (js ''/api/v3/catalog/a/b%2Fc'')
   \<and> splitAt 0x2F (js ''a/b%2Fc'') = [js ''a'', js ''b%2Fc'']
   \<and> getCatalog catalogBackend (Some [js ''a'', js ''b/c'']) []
       = (Inr (Envelope (DataArray [sales])), [GET (js ''/api/v3/catalog/a/b%2Fc'') None])"
proof -
  have ne: "[js ''a'', js ''b/c''] \<noteq> []" by simp
  have ok: "map encodeURIComponent [js ''a'', js ''b/c''] = map Inr [js ''a'', js ''b%2Fc'']"
    by code_simp
  have noerr: "\<not> (\<exists>s\<in>set [js ''a'', js ''b/c'']. encodeURIComponent s = Inl URIError)"
    using ok by auto
  from getCatalog_encodes_each_segment [OF ne, of catalogBackend "[]"] noerr
  obtain encoded where e: "map encodeURIComponent [js ''a'', js ''b/c''] = map Inr encoded"
    and u: "catalogUrl (Some [js ''a'', js ''b/c''])
              = Inr (js ''/api/v3/catalog/'' @ join (js ''/'') encoded)"
    and s: "splitAt 0x2F (join (js ''/'') encoded) = encoded"
    and g: "getCatalog catalogBackend (Some [js ''a'', js ''b/c'']) []
              = (case catalogEndpoint catalogBackend (length ([]::request list))
                        (js ''/api/v3/catalog/'' @ join (js ''/'') encoded) of
                   Rejected message response \<Rightarrow> Inl (AxiosError message response)
                 | Resolved data \<Rightarrow> Inr data,
                 [] @ [GET (js ''/api/v3/catalog/'' @ join (js ''/'') encoded) None])"
    by blast
  from e ok have enc: "encoded = [js ''a'', js ''b%2Fc'']"
    by (metis inj_Inr inj_map_eq_map)
  have j: "join (js ''/'') [js ''a'', js ''b%2Fc''] = js ''a/b%2Fc''" by (simp add: js_def)
  have p: "js ''/api/v3/catalog/'' @ js ''a/b%2Fc'' = js ''/api/v3/catalog/a/b%2Fc''"
    by (simp add: js_def)
  have c: "catalogEndpoint catalogBackend n url = Resolved (Envelope (DataArray [sales]))" for n url
    by (simp add: catalogBackend_def)
  from u s g show ?thesis unfolding enc j p c using ne by simp
qed

text \<open>The earlier revision encodes the separator with the segments.\<close>

lemma catalogUrl_joined_encodes_separator:
  "catalogUrl_joined (Some [js ''a'', js ''b'']) = Inr (js ''/api/v3/catalog/a%2Fb'')"
  by code_simp

section \<open>Properties of query execution\<close>

lemma inFlight_not_terminal:
  "isInFlight state \<Longrightarrow> state \<noteq> js ''FAILED'' \<and> state \<noteq> js ''CANCELED'' \<and> state \<noteq> js ''COMPLETED''"
  by (auto simp: isInFlight_def js_def)

lemma pollJob_trace:
  "pollJob b jobId state attempts tr = (r, tr') \<Longrightarrow>
   \<exists>n. n \<le> maxAttempts - attempts \<and> tr' = tr @ replicate n (GET (js ''/api/v3/job/'' @ jobId) None)"
proof (induction b jobId state attempts tr arbitrary: r tr' rule: pollJob.induct)
  case (1 b jobId state attempts tr)
  let ?url = "js ''/api/v3/job/'' @ jobId"
  show ?case
  proof (cases "isInFlight state \<and> attempts < maxAttempts")
    case False
    with "1.prems" have "tr' = tr"
      by (subst (asm) pollJob.simps) (auto split: if_splits)
    then show ?thesis by simp
  next
    case True
    show ?thesis
    proof (cases "jobEndpoint b (length tr) ?url")
      case (Rejected m resp)
      with True "1.prems" have "tr' = tr @ replicate 1 (GET ?url None)"
        by (subst (asm) pollJob.simps) (auto simp: Let_def)
      moreover from True have "1 \<le> maxAttempts - attempts" by auto
      ultimately show ?thesis by blast
    next
      case (Resolved jr)
      show ?thesis
      proof (cases "jobState jr = js ''FAILED'' \<or> jobState jr = js ''CANCELED''")
        case fc: True
        with True Resolved "1.prems" have "tr' = tr @ replicate 1 (GET ?url None)"
          by (subst (asm) pollJob.simps) (auto simp: Let_def)
        moreover from True have "1 \<le> maxAttempts - attempts" by auto
        ultimately show ?thesis by blast
      next
        case nfc: False
        with True Resolved "1.prems"
        have rec: "pollJob b jobId (jobState jr) (attempts + 1) (tr @ [GET ?url None]) = (r, tr')"
          by (subst (asm) pollJob.simps) (auto simp: Let_def)
        from True have a: "\<not> maxAttempts \<le> attempts" by simp
        from "1.IH" [OF _ a refl Resolved nfc rec] True
        obtain n where n: "n \<le> maxAttempts - (attempts + 1)"
          and t: "tr' = (tr @ [GET ?url None]) @ replicate n (GET ?url None)"
          by auto
        from t have "tr' = tr @ replicate (Suc n) (GET ?url None)" by simp
        moreover from n True have "Suc n \<le> maxAttempts - attempts" by auto
        ultimately show ?thesis by blast
      qed
    qed
  qed
qed

lemma pollJob_inFlight_prefix:
  "isInFlight state \<Longrightarrow> attempts + k \<le> maxAttempts \<Longrightarrow>
   \<forall>i<k. \<exists>jr. jobEndpoint b (length tr + i) (js ''/api/v3/job/'' @ jobId) = Resolved jr
               \<and> isInFlight (jobState jr) \<Longrightarrow>
   \<exists>state'. isInFlight state'
     \<and> pollJob b jobId state attempts tr
       = pollJob b jobId state' (attempts + k)
           (tr @ replicate k (GET (js ''/api/v3/job/'' @ jobId) None))"
proof (induction k arbitrary: state attempts tr)
  case 0
  then show ?case by auto
next
  case (Suc k)
  let ?url = "js ''/api/v3/job/'' @ jobId"
  from Suc.prems(3) obtain jr where jr: "jobEndpoint b (length tr) ?url = Resolved jr"
    and fl: "isInFlight (jobState jr)"
    by force
  from Suc.prems(2) have a: "\<not> maxAttempts \<le> attempts" by simp
  from inFlight_not_terminal [OF fl] jr a Suc.prems(1)
  have step: "pollJob b jobId state attempts tr
              = pollJob b jobId (jobState jr) (attempts + 1) (tr @ [GET ?url None])"
    by (subst pollJob.simps) (simp add: Let_def)
  have more: "\<forall>i<k. \<exists>jr. jobEndpoint b (length (tr @ [GET ?url None]) + i) ?url = Resolved jr
               \<and> isInFlight (jobState jr)"
  proof (intro allI impI)
    fix i assume "i < k"
    then have "Suc i < Suc k" by simp
    with Suc.prems(3) show "\<exists>jr. jobEndpoint b (length (tr @ [GET ?url None]) + i) ?url = Resolved jr
               \<and> isInFlight (jobState jr)" by (metis add_Suc_right length_append_singleton add_Suc)
  qed
  have "attempts + 1 + k \<le> maxAttempts" using Suc.prems(2) by simp
  from Suc.IH [OF fl this more]
  obtain state' where "isInFlight state'"
    and "pollJob b jobId (jobState jr) (attempts + 1) (tr @ [GET ?url None])
         = pollJob b jobId state' (attempts + 1 + k)
             ((tr @ [GET ?url None]) @ replicate k (GET ?url None))"
    by auto
  with step show ?case by (auto simp: replicate_append_same)
qed
lemma executeQuery_try_cases:
  assumes "executeQuery_try b sql maxRows tr = (outcome, tr')"
  shows "(\<exists>m r. sqlEndpoint b (length tr) (js ''/api/v3/sql'') sql = Rejected m r
            \<and> outcome = Inl (AxiosError m r) \<and> tr' = tr @ [POST (js ''/api/v3/sql'') sql])
       \<or> (\<exists>jobId n e. sqlEndpoint b (length tr) (js ''/api/v3/sql'') sql = Resolved jobId
            \<and> n \<le> maxAttempts \<and> outcome = Inl e
            \<and> tr' = tr @ POST (js ''/api/v3/sql'') sql
                        # replicate n (GET (js ''/api/v3/job/'' @ jobId) None))
       \<or> (\<exists>jobId n. sqlEndpoint b (length tr) (js ''/api/v3/sql'') sql = Resolved jobId
            \<and> n \<le> maxAttempts
            \<and> tr' = tr @ POST (js ''/api/v3/sql'') sql
                        # replicate n (GET (js ''/api/v3/job/'' @ jobId) None)
                        @ [GET (js ''/api/v3/job/'' @ jobId @ js ''/results'')
                             (Some (min (case maxRows of None \<Rightarrow> 500 | Some m \<Rightarrow> m) 500))]
            \<and> (case resultsEndpoint b (length tr + 1 + n) (js ''/api/v3/job/'' @ jobId @ js ''/results'')
                       (min (case maxRows of None \<Rightarrow> 500 | Some m \<Rightarrow> m) 500) of
                  Rejected m r \<Rightarrow> outcome = Inl (AxiosError m r)
                | Resolved data \<Rightarrow>
                    (\<exists>q. outcome = Inr q
                       \<and> rows q = (case data_rows data of None \<Rightarrow> [] | Some rs \<Rightarrow> rs)
                       \<and> rowCount q = (case data_rowCount data of None \<Rightarrow> 0 | Some c \<Rightarrow> c))))"
proof (cases "sqlEndpoint b (length tr) (js ''/api/v3/sql'') sql")
  case (Rejected m r)
  with assms show ?thesis by (auto simp: executeQuery_try_def)
next
  case (Resolved jobId)
  let ?tr1 = "tr @ [POST (js ''/api/v3/sql'') sql]"
  obtain pr tr2 where p: "pollJob b jobId (js ''RUNNING'') 0 ?tr1 = (pr, tr2)"
    by (cases "pollJob b jobId (js ''RUNNING'') 0 ?tr1") auto
  from pollJob_trace [OF p] obtain n where n: "n \<le> maxAttempts"
    and tr2: "tr2 = ?tr1 @ replicate n (GET (js ''/api/v3/job/'' @ jobId) None)"
    by auto
  show ?thesis
  proof (cases pr)
    case (Inl e)
    with assms Resolved p have "outcome = Inl e" "tr' = tr2"
      by (auto simp: executeQuery_try_def)
    with Resolved n tr2 show ?thesis by auto
  next
    case (Inr state)
    show ?thesis
    proof (cases "state = js ''COMPLETED''")
      case False
      with assms Resolved p Inr
      have "outcome = Inl (Error (js ''Query failed with state: '' @ state))" "tr' = tr2"
        by (auto simp: executeQuery_try_def)
      with Resolved n tr2 show ?thesis by auto
    next
      case True
      have len: "length tr2 = length tr + 1 + n" using tr2 by simp
      show ?thesis
      proof (cases "resultsEndpoint b (length tr2) (js ''/api/v3/job/'' @ jobId @ js ''/results'')
                       (min (case maxRows of None \<Rightarrow> 500 | Some m \<Rightarrow> m) 500)")
        case (Rejected m r)
        with assms Resolved p Inr True
        have "outcome = Inl (AxiosError m r)"
          "tr' = tr2 @ [GET (js ''/api/v3/job/'' @ jobId @ js ''/results'')
                             (Some (min (case maxRows of None \<Rightarrow> 500 | Some m \<Rightarrow> m) 500))]"
          by (auto simp: executeQuery_try_def Let_def)
        with Resolved n tr2 Rejected len show ?thesis by auto
      next
        case res: (Resolved data)
        with assms Resolved p Inr True
        have "\<exists>q. outcome = Inr q
                       \<and> rows q = (case data_rows data of None \<Rightarrow> [] | Some rs \<Rightarrow> rs)
                       \<and> rowCount q = (case data_rowCount data of None \<Rightarrow> 0 | Some c \<Rightarrow> c)"
          "tr' = tr2 @ [GET (js ''/api/v3/job/'' @ jobId @ js ''/results'')
                             (Some (min (case maxRows of None \<Rightarrow> 500 | Some m \<Rightarrow> m) 500))]"
          by (auto simp: executeQuery_try_def Let_def)
        with Resolved n tr2 res len show ?thesis by auto
      qed
    qed
  qed
qed

lemma executeQuery_trace: "snd (executeQuery b sql maxRows tr) = snd (executeQuery_try b sql maxRows tr)"
  by (simp add: executeQuery_def split: prod.splits sum.splits)

text \<open>
  C7. When the statement is accepted and every poll finds the job in one of the in-flight
  states, the call makes exactly 30 polls and then fails with the error
  \<open>Query timeout\<close>.
\<close>

theorem executeQuery_times_out:
  assumes "sqlEndpoint b (length tr) (js ''/api/v3/sql'') sql = Resolved jobId"
    and "\<forall>i<maxAttempts. \<exists>jr. jobEndpoint b (length tr + 1 + i) (js ''/api/v3/job/'' @ jobId) = Resolved jr
               \<and> isInFlight (jobState jr)"
  shows "executeQuery b sql maxRows tr
           = (Inl (Error (js ''Query timeout'')),
              tr @ POST (js ''/api/v3/sql'') sql
                   # replicate 30 (GET (js ''/api/v3/job/'' @ jobId) None))"
proof -
  let ?url = "js ''/api/v3/job/'' @ jobId"
  let ?tr1 = "tr @ [POST (js ''/api/v3/sql'') sql]"
  have run: "isInFlight (js ''RUNNING'')" by (simp add: isInFlight_def)
  from assms(2) have "\<forall>i<maxAttempts. \<exists>jr. jobEndpoint b (length ?tr1 + i) ?url = Resolved jr
               \<and> isInFlight (jobState jr)" by simp
  from pollJob_inFlight_prefix [OF run _ this, of 0]
  obtain state' where fl: "isInFlight state'"
    and "pollJob b jobId (js ''RUNNING'') 0 ?tr1
         = pollJob b jobId state' maxAttempts (?tr1 @ replicate maxAttempts (GET ?url None))"
    by auto
  then have "pollJob b jobId (js ''RUNNING'') 0 ?tr1
         = (Inl (Error (js ''Query timeout'')), ?tr1 @ replicate maxAttempts (GET ?url None))"
    using fl by (simp add: pollJob.simps [of _ _ state' maxAttempts])
  with assms(1) show ?thesis
    by (simp add: executeQuery_def executeQuery_try_def rethrow_def maxAttempts_def)
qed

theorem executeQuery_times_out_witness:
  "executeQuery stuckBackend (js ''SELECT 1'') None []
     = (Inl (Error (js ''Query timeout'')),
        POST (js ''/api/v3/sql'') (js ''SELECT 1'')
          # replicate 30 (GET (js ''/api/v3/job/job-1'') None))"
proof -
  have s: "sqlEndpoint stuckBackend (length ([]::request list)) (js ''/api/v3/sql'') (js ''SELECT 1'')
             = Resolved (js ''job-1'')"
    by (simp add: stuckBackend_def)
  have p: "\<forall>i<maxAttempts. \<exists>jr.
             jobEndpoint stuckBackend (length ([]::request list) + 1 + i)
               (js ''/api/v3/job/'' @ js ''job-1'') = Resolved jr
             \<and> isInFlight (jobState jr)"
    by (simp add: stuckBackend_def isInFlight_def)
  have u: "js ''/api/v3/job/'' @ js ''job-1'' = js ''/api/v3/job/job-1''"
    by (simp add: js_def)
  from executeQuery_times_out [OF s p, of None] show ?thesis
    by (simp add: u)
qed

text \<open>
  C10. The polling loop terminates whatever the backend answers: a call sends the
  statement, then at most 30 job-status requests, then at most one results request, so
  at most 32 requests in all.
\<close>

theorem executeQuery_bounded_requests:
  "\<exists>n jobId rest.
      n \<le> 30
      \<and> snd (executeQuery b sql maxRows tr)
          = tr @ POST (js ''/api/v3/sql'') sql
                 # replicate n (GET (js ''/api/v3/job/'' @ jobId) None) @ rest
      \<and> (rest = []
          \<or> rest = [GET (js ''/api/v3/job/'' @ jobId @ js ''/results'')
                      (Some (min (case maxRows of None \<Rightarrow> 500 | Some m \<Rightarrow> m) 500))])
      \<and> length (snd (executeQuery b sql maxRows tr)) \<le> length tr + 32"
proof -
  obtain outcome tr' where e: "executeQuery_try b sql maxRows tr = (outcome, tr')"
    by (cases "executeQuery_try b sql maxRows tr") auto
  then have s: "snd (executeQuery b sql maxRows tr) = tr'"
    by (simp add: executeQuery_trace)
  from executeQuery_try_cases [OF e]
  consider (a) "tr' = tr @ [POST (js ''/api/v3/sql'') sql]"
    | (b) jobId n where "n \<le> maxAttempts"
        "tr' = tr @ POST (js ''/api/v3/sql'') sql
                 # replicate n (GET (js ''/api/v3/job/'' @ jobId) None)"
    | (c) jobId n where "n \<le> maxAttempts"
        "tr' = tr @ POST (js ''/api/v3/sql'') sql
                 # replicate n (GET (js ''/api/v3/job/'' @ jobId) None)
                 @ [GET (js ''/api/v3/job/'' @ jobId @ js ''/results'')
                      (Some (min (case maxRows of None \<Rightarrow> 500 | Some m \<Rightarrow> m) 500))]"
    by auto
  then show ?thesis
  proof cases
    case a
    then have "(0::nat) \<le> 30
        \<and> tr' = tr @ POST (js ''/api/v3/sql'') sql
                   # replicate 0 (GET (js ''/api/v3/job/'' @ []) None) @ []
        \<and> length tr' \<le> length tr + 32"
      by simp
    then show ?thesis unfolding s by blast
  next
    case b
    then have "n \<le> 30
        \<and> tr' = tr @ POST (js ''/api/v3/sql'') sql
                   # replicate n (GET (js ''/api/v3/job/'' @ jobId) None) @ []
        \<and> length tr' \<le> length tr + 32"
      by (simp add: maxAttempts_def)
    then show ?thesis unfolding s by blast
  next
    case c
    then have "n \<le> 30
        \<and> tr' = tr @ POST (js ''/api/v3/sql'') sql
                   # replicate n (GET (js ''/api/v3/job/'' @ jobId) None)
                   @ [GET (js ''/api/v3/job/'' @ jobId @ js ''/results'')
                        (Some (min (case maxRows of None \<Rightarrow> 500 | Some m \<Rightarrow> m) 500))]
        \<and> length tr' \<le> length tr + 32"
      by (simp add: maxAttempts_def)
    then show ?thesis unfolding s by blast
  qed
qed

lemma sublist_jobFailureMessage:
  "(\<forall>m. errorMessage failure = Some m \<longrightarrow> sublist m (jobFailureMessage failure))
   \<and> (\<forall>d. queryError failure = Some d \<longrightarrow> sublist d (jobFailureMessage failure))"
proof (intro conjI allI impI)
  fix m assume m: "errorMessage failure = Some m"
  show "sublist m (jobFailureMessage failure)"
  proof (cases "m = []")
    case True
    then show ?thesis by simp
  next
    case False
    with m have "jobFailureMessage failure
        = (js ''Query failed with state: '' @ jobState failure @ js ''. Error: '') @ m
          @ (if (case queryError failure of None \<Rightarrow> [] | Some d \<Rightarrow> d) \<noteq> []
             then js ''. Details: '' @ (case queryError failure of None \<Rightarrow> [] | Some d \<Rightarrow> d)
             else [])"
      by (simp add: jobFailureMessage_def Let_def)
    then show ?thesis unfolding sublist_def by blast
  qed
next
  fix d assume d: "queryError failure = Some d"
  show "sublist d (jobFailureMessage failure)"
  proof (cases "d = []")
    case True
    then show ?thesis by simp
  next
    case False
    with d have "jobFailureMessage failure
        = (js ''Query failed with state: '' @ jobState failure @ js ''. Error: ''
           @ (case errorMessage failure of
               None \<Rightarrow> js ''Unknown error''
             | Some m \<Rightarrow> if m = [] then js ''Unknown error'' else m) @ js ''. Details: '') @ d @ []"
      by (simp add: jobFailureMessage_def Let_def)
    then show ?thesis unfolding sublist_def by blast
  qed
qed

text \<open>
  C6. When a poll within the attempt ceiling finds the job \<open>FAILED\<close> or \<open>CANCELED\<close>,
  the polls before it having found it in flight, the call fails with an error whose message
  contains the error message the backend reported and, when the backend reported a detail,
  that detail.
\<close>

theorem executeQuery_reports_job_failure:
  assumes "sqlEndpoint b (length tr) (js ''/api/v3/sql'') sql = Resolved jobId"
    and "k < maxAttempts"
    and "\<forall>i<k. \<exists>jr. jobEndpoint b (length tr + 1 + i) (js ''/api/v3/job/'' @ jobId) = Resolved jr
               \<and> isInFlight (jobState jr)"
    and "jobEndpoint b (length tr + 1 + k) (js ''/api/v3/job/'' @ jobId) = Resolved failure"
    and "jobState failure = js ''FAILED'' \<or> jobState failure = js ''CANCELED''"
  shows "executeQuery b sql maxRows tr
           = (Inl (Error (jobFailureMessage failure)),
              tr @ POST (js ''/api/v3/sql'') sql
                   # replicate (Suc k) (GET (js ''/api/v3/job/'' @ jobId) None))
         \<and> (\<forall>m. errorMessage failure = Some m \<longrightarrow> sublist m (jobFailureMessage failure))
         \<and> (\<forall>d. queryError failure = Some d \<longrightarrow> sublist d (jobFailureMessage failure))"
proof -
  let ?url = "js ''/api/v3/job/'' @ jobId"
  let ?tr1 = "tr @ [POST (js ''/api/v3/sql'') sql]"
  have run: "isInFlight (js ''RUNNING'')" by (simp add: isInFlight_def)
  from assms(3) have pre: "\<forall>i<k. \<exists>jr. jobEndpoint b (length ?tr1 + i) ?url = Resolved jr
               \<and> isInFlight (jobState jr)" by simp
  from assms(2) have "0 + k \<le> maxAttempts" by simp
  from pollJob_inFlight_prefix [OF run this pre]
  obtain state' where fl: "isInFlight state'"
    and eq: "pollJob b jobId (js ''RUNNING'') 0 ?tr1
         = pollJob b jobId state' k (?tr1 @ replicate k (GET ?url None))"
    by auto
  from assms(4) have last: "jobEndpoint b (length (?tr1 @ replicate k (GET ?url None))) ?url = Resolved failure"
    by simp
  have "pollJob b jobId state' k (?tr1 @ replicate k (GET ?url None))
        = (Inl (Error (jobFailureMessage failure)),
           (?tr1 @ replicate k (GET ?url None)) @ [GET ?url None])"
    using fl assms(2) assms(5) last
    by (subst pollJob.simps) (simp add: Let_def)
  with eq have "pollJob b jobId (js ''RUNNING'') 0 ?tr1
        = (Inl (Error (jobFailureMessage failure)), ?tr1 @ replicate (Suc k) (GET ?url None))"
    by (simp add: replicate_append_same)
  with assms(1) have "executeQuery b sql maxRows tr
           = (Inl (Error (jobFailureMessage failure)),
              tr @ POST (js ''/api/v3/sql'') sql # replicate (Suc k) (GET ?url None))"
    by (simp add: executeQuery_def executeQuery_try_def rethrow_def)
  with sublist_jobFailureMessage [of failure] show ?thesis by blast
qed

theorem executeQuery_reports_job_failure_witness:
  "executeQuery failingBackend (js ''SELECT * FROM missing'') None []
     = (Inl (Error (js ''Query failed with state: FAILED. Error: Table not found. Details: line 1'')),
        POST (js ''/api/v3/sql'') (js ''SELECT * FROM missing'')
          # replicate 3 (GET (js ''/api/v3/job/job-2'') None))
   \<and> sublist (js ''Table not found'')
        (js ''Query failed with state: FAILED. Error: Table not found. Details: line 1'')
   \<and> sublist (js ''line 1'')
        (js ''Query failed with state: FAILED. Error: Table not found. Details: line 1'')"
proof -
  let ?failure = "\<lparr> jobState = js ''FAILED'', errorMessage = Some (js ''Table not found''),
                     queryError = Some (js ''line 1'') \<rparr>"
  have s: "sqlEndpoint failingBackend (length ([]::request list)) (js ''/api/v3/sql'')
             (js ''SELECT * FROM missing'') = Resolved (js ''job-2'')"
    by (simp add: failingBackend_def)
  have k: "2 < maxAttempts" by (simp add: maxAttempts_def)
  have p: "\<forall>i<2. \<exists>jr.
             jobEndpoint failingBackend (length ([]::request list) + 1 + i)
               (js ''/api/v3/job/'' @ js ''job-2'') = Resolved jr
             \<and> isInFlight (jobState jr)"
    by (simp add: failingBackend_def isInFlight_def)
  have f: "jobEndpoint failingBackend (length ([]::request list) + 1 + 2)
             (js ''/api/v3/job/'' @ js ''job-2'') = Resolved ?failure"
    by (simp add: failingBackend_def)
  have t: "jobState ?failure = js ''FAILED'' \<or> jobState ?failure = js ''CANCELED''"
    by simp
  have u: "js ''/api/v3/job/'' @ js ''job-2'' = js ''/api/v3/job/job-2''"
    by (simp add: js_def)
  have m: "jobFailureMessage ?failure
             = js ''Query failed with state: FAILED. Error: Table not found. Details: line 1''"
    by (simp add: jobFailureMessage_def js_def)
  from executeQuery_reports_job_failure [OF s k p f t, of None] show ?thesis
    unfolding m u by (simp add: numeral_3_eq_3)
qed

text \<open>
  C5, as stated: a call that returns a result returns at most \<open>min(maxRows, 500)\<close> rows.
  The rows are the backend's, unchanged: a results page of two rows is returned whole
  when one row was asked for.
\<close>

theorem executeQuery_rows_exceed_limit:
  "executeQuery overfullBackend (js ''SELECT n FROM t'') (Some 1) []
     = (Inr \<lparr> rowCount = 2, schema = [], rows = overfullRows \<rparr>,
        [POST (js ''/api/v3/sql'') (js ''SELECT n FROM t''),
         GET (js ''/api/v3/job/job-3'') None,
         GET (js ''/api/v3/job/job-3/results'') (Some 1)])
   \<and> \<not> int (length overfullRows) \<le> min 1 500"
  by code_simp

lemma executeQuery_limit_sent:
  assumes "executeQuery b sql maxRows tr = (outcome, tr')"
  shows "(\<forall>url l. GET url (Some l) \<in> set (drop (length tr) tr')
            \<longrightarrow> l = min (case maxRows of None \<Rightarrow> 500 | Some m \<Rightarrow> m) 500 \<and> l \<le> 500)
         \<and> (\<forall>q. outcome = Inr q \<longrightarrow>
               (\<exists>url data.
                  tr' = butlast tr' @ [GET url (Some (min (case maxRows of None \<Rightarrow> 500 | Some m \<Rightarrow> m) 500))]
                  \<and> resultsEndpoint b (length tr' - 1) url
                      (min (case maxRows of None \<Rightarrow> 500 | Some m \<Rightarrow> m) 500) = Resolved data
                  \<and> rows q = (case data_rows data of None \<Rightarrow> [] | Some rs \<Rightarrow> rs)
                  \<and> (int (length (case data_rows data of None \<Rightarrow> [] | Some rs \<Rightarrow> rs))
                         \<le> min (case maxRows of None \<Rightarrow> 500 | Some m \<Rightarrow> m) 500
                       \<longrightarrow> int (length (rows q))
                             \<le> min (case maxRows of None \<Rightarrow> 500 | Some m \<Rightarrow> m) 500)))"
proof -
  let ?limit = "min (case maxRows of None \<Rightarrow> 500 | Some m \<Rightarrow> m) 500"
  obtain o' where e: "executeQuery_try b sql maxRows tr = (o', tr')"
    and o: "\<And>q. outcome = Inr q \<Longrightarrow> o' = Inr q"
    using assms by (auto simp: executeQuery_def split: prod.splits sum.splits)
  from executeQuery_try_cases [OF e]
  consider (a) "tr' = tr @ [POST (js ''/api/v3/sql'') sql]" "\<exists>e. o' = Inl e"
    | (b) jobId n where "tr' = tr @ POST (js ''/api/v3/sql'') sql
                        # replicate n (GET (js ''/api/v3/job/'' @ jobId) None)" "\<exists>e. o' = Inl e"
    | (c) jobId n where "tr' = tr @ POST (js ''/api/v3/sql'') sql
                        # replicate n (GET (js ''/api/v3/job/'' @ jobId) None)
                        @ [GET (js ''/api/v3/job/'' @ jobId @ js ''/results'') (Some ?limit)]"
          "case resultsEndpoint b (length tr + 1 + n) (js ''/api/v3/job/'' @ jobId @ js ''/results'') ?limit of
                  Rejected m r \<Rightarrow> o' = Inl (AxiosError m r)
                | Resolved data \<Rightarrow>
                    (\<exists>q. o' = Inr q
                       \<and> rows q = (case data_rows data of None \<Rightarrow> [] | Some rs \<Rightarrow> rs)
                       \<and> rowCount q = (case data_rowCount data of None \<Rightarrow> 0 | Some c \<Rightarrow> c))"
    by blast
  then show ?thesis
  proof cases
    case a
    with o show ?thesis by auto
  next
    case b
    with o show ?thesis by auto
  next
    case c
    have lim: "\<forall>url l. GET url (Some l) \<in> set (drop (length tr) tr') \<longrightarrow> l = ?limit \<and> l \<le> 500"
      using c(1) by auto
    have len: "length tr' - 1 = length tr + 1 + n" using c(1) by simp
    have bl: "butlast tr' = tr @ POST (js ''/api/v3/sql'') sql
                        # replicate n (GET (js ''/api/v3/job/'' @ jobId) None)"
      using c(1) by (simp add: butlast_append)
    have "\<forall>q. outcome = Inr q \<longrightarrow>
               (\<exists>url data.
                  tr' = butlast tr' @ [GET url (Some ?limit)]
                  \<and> resultsEndpoint b (length tr' - 1) url ?limit = Resolved data
                  \<and> rows q = (case data_rows data of None \<Rightarrow> [] | Some rs \<Rightarrow> rs)
                  \<and> (int (length (case data_rows data of None \<Rightarrow> [] | Some rs \<Rightarrow> rs)) \<le> ?limit
                       \<longrightarrow> int (length (rows q)) \<le> ?limit))"
    proof (intro allI impI)
      fix q assume "outcome = Inr q"
      then have oq: "o' = Inr q" by (rule o)
      with c(2) obtain data where
        "resultsEndpoint b (length tr + 1 + n) (js ''/api/v3/job/'' @ jobId @ js ''/results'') ?limit = Resolved data"
        "rows q = (case data_rows data of None \<Rightarrow> [] | Some rs \<Rightarrow> rs)"
        by (auto split: reply.splits)
      with len bl c(1) show "\<exists>url data.
                  tr' = butlast tr' @ [GET url (Some ?limit)]
                  \<and> resultsEndpoint b (length tr' - 1) url ?limit = Resolved data
                  \<and> rows q = (case data_rows data of None \<Rightarrow> [] | Some rs \<Rightarrow> rs)
                  \<and> (int (length (case data_rows data of None \<Rightarrow> [] | Some rs \<Rightarrow> rs)) \<le> ?limit
                       \<longrightarrow> int (length (rows q)) \<le> ?limit)"
        by auto
    qed
    with lim show ?thesis by blast
  qed
qed

lemma pollJob_completes:
  assumes "k < maxAttempts"
    and "\<forall>i<k. \<exists>jr. jobEndpoint b (length tr + i) (js ''/api/v3/job/'' @ jobId) = Resolved jr
               \<and> isInFlight (jobState jr)"
    and "jobEndpoint b (length tr + k) (js ''/api/v3/job/'' @ jobId) = Resolved finished"
    and "jobState finished = js ''COMPLETED''"
  shows "pollJob b jobId (js ''RUNNING'') 0 tr
           = (Inr (js ''COMPLETED''),
              tr @ replicate (Suc k) (GET (js ''/api/v3/job/'' @ jobId) None))"
proof -
  let ?url = "js ''/api/v3/job/'' @ jobId"
  have run: "isInFlight (js ''RUNNING'')" by (simp add: isInFlight_def)
  have cmp: "\<not> isInFlight (js ''COMPLETED'')"
    "js ''COMPLETED'' \<noteq> js ''FAILED''" "js ''COMPLETED'' \<noteq> js ''CANCELED''"
    by (simp_all add: isInFlight_def js_def)
  from assms(1) have "0 + k \<le> maxAttempts" by simp
  from pollJob_inFlight_prefix [OF run this assms(2)]
  obtain state' where fl: "isInFlight state'"
    and eq: "pollJob b jobId (js ''RUNNING'') 0 tr
         = pollJob b jobId state' k (tr @ replicate k (GET ?url None))"
    by auto
  from assms(3) have last: "jobEndpoint b (length (tr @ replicate k (GET ?url None))) ?url
                              = Resolved finished"
    by simp
  have "pollJob b jobId state' k (tr @ replicate k (GET ?url None))
        = pollJob b jobId (js ''COMPLETED'') (k + 1)
            ((tr @ replicate k (GET ?url None)) @ [GET ?url None])"
    using fl assms(1) assms(4) last cmp
    by (subst pollJob.simps) (simp add: Let_def)
  also have "\<dots> = (Inr (js ''COMPLETED''), (tr @ replicate k (GET ?url None)) @ [GET ?url None])"
    using cmp by (subst pollJob.simps) simp
  finally show ?thesis using eq by (simp add: replicate_append_same)
qed

text \<open>
  C5, amended. The only limit a call sends is \<open>min(maxRows, 500)\<close>, with \<open>maxRows\<close> 500
  when it is not given, so it never exceeds 500. When the statement is accepted, the job
  is found \<open>COMPLETED\<close> by a poll within the attempt ceiling, the polls before it having
  found it in flight, and the results request, sent with that limit, succeeds, the call
  returns a result whose rows are the rows of the response to that request (none when the
  response has no rows), with its row count and schema.
\<close>

theorem executeQuery_returns_backend_rows:
  "(\<forall>outcome tr'.
      executeQuery b sql maxRows tr = (outcome, tr') \<longrightarrow>
      (\<forall>url l. GET url (Some l) \<in> set (drop (length tr) tr')
         \<longrightarrow> l = min (case maxRows of None \<Rightarrow> 500 | Some m \<Rightarrow> m) 500 \<and> l \<le> 500))
   \<and> (sqlEndpoint b (length tr) (js ''/api/v3/sql'') sql = Resolved jobId
        \<and> k < maxAttempts
        \<and> (\<forall>i<k. \<exists>jr. jobEndpoint b (length tr + 1 + i) (js ''/api/v3/job/'' @ jobId) = Resolved jr
               \<and> isInFlight (jobState jr))
        \<and> jobEndpoint b (length tr + 1 + k) (js ''/api/v3/job/'' @ jobId) = Resolved finished
        \<and> jobState finished = js ''COMPLETED''
        \<and> resultsEndpoint b (length tr + 2 + k) (js ''/api/v3/job/'' @ jobId @ js ''/results'')
             (min (case maxRows of None \<Rightarrow> 500 | Some m \<Rightarrow> m) 500) = Resolved data
      \<longrightarrow> executeQuery b sql maxRows tr
            = (Inr \<lparr> rowCount = (case data_rowCount data of None \<Rightarrow> 0 | Some n \<Rightarrow> n),
                     schema =
                       (case data_schema data of
                          None \<Rightarrow> []
                        | Some fs \<Rightarrow> map (\<lambda>field. \<lparr> name = name field, ftype = ftype field \<rparr>) fs),
                     rows = (case data_rows data of None \<Rightarrow> [] | Some rs \<Rightarrow> rs) \<rparr>,
               tr @ POST (js ''/api/v3/sql'') sql
                    # replicate (Suc k) (GET (js ''/api/v3/job/'' @ jobId) None)
                    @ [GET (js ''/api/v3/job/'' @ jobId @ js ''/results'')
                         (Some (min (case maxRows of None \<Rightarrow> 500 | Some m \<Rightarrow> m) 500))]))"
proof (intro conjI allI impI)
  fix outcome tr' url l
  assume "executeQuery b sql maxRows tr = (outcome, tr')"
    and "GET url (Some l) \<in> set (drop (length tr) tr')"
  with executeQuery_limit_sent [of b sql maxRows tr outcome tr']
  show "l = min (case maxRows of None \<Rightarrow> 500 | Some m \<Rightarrow> m) 500" "l \<le> 500"
    by blast+
next
  let ?limit = "min (case maxRows of None \<Rightarrow> 500 | Some m \<Rightarrow> m) 500"
  let ?url = "js ''/api/v3/job/'' @ jobId"
  let ?tr1 = "tr @ [POST (js ''/api/v3/sql'') sql]"
  assume h: "sqlEndpoint b (length tr) (js ''/api/v3/sql'') sql = Resolved jobId
        \<and> k < maxAttempts
        \<and> (\<forall>i<k. \<exists>jr. jobEndpoint b (length tr + 1 + i) ?url = Resolved jr
               \<and> isInFlight (jobState jr))
        \<and> jobEndpoint b (length tr + 1 + k) ?url = Resolved finished
        \<and> jobState finished = js ''COMPLETED''
        \<and> resultsEndpoint b (length tr + 2 + k) (js ''/api/v3/job/'' @ jobId @ js ''/results'')
             ?limit = Resolved data"
  then have k: "k < maxAttempts"
    and pre: "\<forall>i<k. \<exists>jr. jobEndpoint b (length ?tr1 + i) ?url = Resolved jr
               \<and> isInFlight (jobState jr)"
    and fin: "jobEndpoint b (length ?tr1 + k) ?url = Resolved finished"
    and st: "jobState finished = js ''COMPLETED''"
    by simp_all
  from pollJob_completes [OF k pre fin st]
  have p: "pollJob b jobId (js ''RUNNING'') 0 ?tr1
             = (Inr (js ''COMPLETED''), ?tr1 @ replicate (Suc k) (GET ?url None))" .
  have len: "length (?tr1 @ replicate (Suc k) (GET ?url None)) = length tr + 2 + k" by simp
  from h have res: "resultsEndpoint b (length (?tr1 @ replicate (Suc k) (GET ?url None)))
                      (js ''/api/v3/job/'' @ jobId @ js ''/results'') ?limit = Resolved data"
    unfolding len by blast
  from h have sub: "sqlEndpoint b (length tr) (js ''/api/v3/sql'') sql = Resolved jobId" by blast
  show "executeQuery b sql maxRows tr
            = (Inr \<lparr> rowCount = (case data_rowCount data of None \<Rightarrow> 0 | Some n \<Rightarrow> n),
                     schema =
                       (case data_schema data of
                          None \<Rightarrow> []
                        | Some fs \<Rightarrow> map (\<lambda>field. \<lparr> name = name field, ftype = ftype field \<rparr>) fs),
                     rows = (case data_rows data of None \<Rightarrow> [] | Some rs \<Rightarrow> rs) \<rparr>,
               tr @ POST (js ''/api/v3/sql'') sql
                    # replicate (Suc k) (GET ?url None)
                    @ [GET (js ''/api/v3/job/'' @ jobId @ js ''/results'') (Some ?limit)])"
    unfolding executeQuery_def executeQuery_try_def
    by (simp only: sub Let_def reply.case p prod.case sum.case res) simp
qed

theorem executeQuery_returns_backend_rows_witness:
  "executeQuery overfullBackend (js ''SELECT n FROM t'') (Some 1000) []
     = (Inr \<lparr> rowCount = 2, schema = [], rows = overfullRows \<rparr>,
        [POST (js ''/api/v3/sql'') (js ''SELECT n FROM t''),
         GET (js ''/api/v3/job/job-3'') None,
         GET (js ''/api/v3/job/job-3/results'') (Some 500)])
   \<and> (500::int) = min 1000 500
   \<and> (500::int) \<le> 500"
proof -
  let ?sql = "js ''SELECT n FROM t''"
  let ?finished = "\<lparr> jobState = js ''COMPLETED'', errorMessage = None, queryError = None \<rparr>"
  let ?data = "\<lparr> data_rowCount = Some 2, data_schema = None, data_rows = Some overfullRows \<rparr>"
  let ?tr = "[POST (js ''/api/v3/sql'') ?sql,
         GET (js ''/api/v3/job/job-3'') None,
         GET (js ''/api/v3/job/job-3/results'') (Some 500)]"
  note inst = executeQuery_returns_backend_rows
    [of overfullBackend ?sql "Some 1000" "[]" "js ''job-3''" 0 ?finished ?data]
  have hyp: "sqlEndpoint overfullBackend (length ([]::request list)) (js ''/api/v3/sql'') ?sql
               = Resolved (js ''job-3'')
        \<and> 0 < maxAttempts
        \<and> (\<forall>i<0. \<exists>jr. jobEndpoint overfullBackend (length ([]::request list) + 1 + i)
                          (js ''/api/v3/job/'' @ js ''job-3'') = Resolved jr
               \<and> isInFlight (jobState jr))
        \<and> jobEndpoint overfullBackend (length ([]::request list) + 1 + 0)
              (js ''/api/v3/job/'' @ js ''job-3'') = Resolved ?finished
        \<and> jobState ?finished = js ''COMPLETED''
        \<and> resultsEndpoint overfullBackend (length ([]::request list) + 2 + 0)
              (js ''/api/v3/job/'' @ js ''job-3'' @ js ''/results'')
              (min (case Some 1000 of None \<Rightarrow> 500 | Some m \<Rightarrow> m) 500) = Resolved ?data"
    by (simp add: overfullBackend_def maxAttempts_def)
  have u1: "js ''/api/v3/job/'' @ js ''job-3'' = js ''/api/v3/job/job-3''"
    and u2: "js ''/api/v3/job/'' @ js ''job-3'' @ js ''/results'' = js ''/api/v3/job/job-3/results''"
    by (simp_all add: js_def)
  from inst hyp
  have "executeQuery overfullBackend ?sql (Some 1000) []
          = (Inr \<lparr> rowCount = (case data_rowCount ?data of None \<Rightarrow> 0 | Some n \<Rightarrow> n),
                   schema =
                     (case data_schema ?data of
                        None \<Rightarrow> []
                      | Some fs \<Rightarrow> map (\<lambda>field. \<lparr> name = name field, ftype = ftype field \<rparr>) fs),
                   rows = (case data_rows ?data of None \<Rightarrow> [] | Some rs \<Rightarrow> rs) \<rparr>,
             [] @ POST (js ''/api/v3/sql'') ?sql
                  # replicate (Suc 0) (GET (js ''/api/v3/job/'' @ js ''job-3'') None)
                  @ [GET (js ''/api/v3/job/'' @ js ''job-3'' @ js ''/results'')
                       (Some (min (case Some 1000 of None \<Rightarrow> 500 | Some m \<Rightarrow> m) 500))])"
    by blast
  then have run: "executeQuery overfullBackend ?sql (Some 1000) []
                    = (Inr \<lparr> rowCount = 2, schema = [], rows = overfullRows \<rparr>, ?tr)"
    unfolding u1 u2 by simp
  from inst run
  have "\<forall>url l. GET url (Some l) \<in> set (drop (length ([]::request list)) ?tr)
          \<longrightarrow> l = min (case Some 1000 of None \<Rightarrow> 500 | Some m \<Rightarrow> m) 500 \<and> l \<le> 500"
    by blast
  then have "(500::int) = min 1000 500 \<and> (500::int) \<le> 500" by simp
  with run show ?thesis by blast
qed

section \<open>Properties of catalog search\<close>

lemma visited_matches:
  "(if hasPath p then
      (case lastSegment p of
         Inl e \<Rightarrow> Inl e
       | Inr lastName \<Rightarrow>
           if includes_str (lower lastName) (lower searchTerm)
           then Inr (results @ [CatalogEntity i p t ty ct ch])
           else Inr results)
    else Inr results)
   = Inr (results @ filter (matchesTerm lower searchTerm) [CatalogEntity i p t ty ct ch])"
  by (cases p) (auto simp: hasPath_def lastSegment_def matchesTerm_def)

lemma searchRecursive_filter:
  "searchRecursive lower searchTerm entity results
     = Inr (results @ filter (matchesTerm lower searchTerm) (preorder entity))"
  and searchEach_filter:
  "searchEach lower searchTerm entities results
     = Inr (results @ filter (matchesTerm lower searchTerm) (concat (map preorder entities)))"
proof (induction lower searchTerm entity results and lower searchTerm entities results
       rule: searchRecursive_searchEach.induct)
  case (1 lower searchTerm i p t ty ct ch results)
  show ?case
  proof (cases ch)
    case None
    then show ?thesis by (simp add: visited_matches)
  next
    case (Some cs)
    from "1.IH" [OF refl refl visited_matches Some] Some show ?thesis
      by (simp add: visited_matches)
  qed
next
  case (2 lower searchTerm results)
  show ?case by simp
next
  case (3 lower searchTerm child rest results)
  from "3.IH"(2) [OF "3.IH"(1)] "3.IH"(1) show ?case by simp
qed

text \<open>
  C8. When the root catalog is fetched, in either shape, the search does not throw and
  returns, in depth-first order, exactly the visited entities that have a path that is not
  empty and whose last segment contains the search term once both are in lower case; an
  entity without a path or with an empty path is never returned.
\<close>

theorem searchCatalog_matches_in_traversal_order:
  assumes "catalogEndpoint b (length tr) (js ''/api/v3/catalog'') = Resolved response"
  shows "searchCatalog lower b searchTerm tr
           = (Inr (filter (matchesTerm lower searchTerm) (visitOrder response)),
              tr @ [GET (js ''/api/v3/catalog'') None])
         \<and> (\<forall>entity. matchesTerm lower searchTerm entity \<longleftrightarrow>
               (\<exists>segments. path entity = Some segments \<and> segments \<noteq> []
                  \<and> includes_str (lower (last segments)) (lower searchTerm)))"
proof
  have g: "getCatalog b None tr = (Inr response, tr @ [GET (js ''/api/v3/catalog'') None])"
    using assms by (simp add: getCatalog_def catalogUrl_def)
  show "searchCatalog lower b searchTerm tr
           = (Inr (filter (matchesTerm lower searchTerm) (visitOrder response)),
              tr @ [GET (js ''/api/v3/catalog'') None])"
  proof (cases response)
    case (Bare entity)
    with g show ?thesis
      by (simp add: searchCatalog_def visitOrder_def searchEach_filter)
  next
    case (Envelope d)
    with g show ?thesis
      by (cases d) (simp_all add: searchCatalog_def visitOrder_def searchEach_filter
                      searchRecursive_filter)
  qed
  show "\<forall>entity. matchesTerm lower searchTerm entity \<longleftrightarrow>
               (\<exists>segments. path entity = Some segments \<and> segments \<noteq> []
                  \<and> includes_str (lower (last segments)) (lower searchTerm))"
    by (auto simp: matchesTerm_def split: option.splits)
qed

theorem searchCatalog_matches_in_traversal_order_witness:
  "searchCatalog asciiLower catalogBackend (js ''CUST'') []
     = (Inr [customers], [GET (js ''/api/v3/catalog'') None])
   \<and> searchCatalog asciiLower catalogBackend (js ''S'') []
     = (Inr [sales, customers], [GET (js ''/api/v3/catalog'') None])"
proof -
  have c: "catalogEndpoint catalogBackend (length ([]::request list)) (js ''/api/v3/catalog'')
             = Resolved (Envelope (DataArray [sales]))"
    by (simp add: catalogBackend_def)
  have f1: "filter (matchesTerm asciiLower (js ''CUST'')) (visitOrder (Envelope (DataArray [sales])))
             = [customers]"
    by code_simp
  have f2: "filter (matchesTerm asciiLower (js ''S'')) (visitOrder (Envelope (DataArray [sales])))
             = [sales, customers]"
    by code_simp
  from searchCatalog_matches_in_traversal_order [OF c, of asciiLower "js ''CUST''"]
       searchCatalog_matches_in_traversal_order [OF c, of asciiLower "js ''S''"]
  show ?thesis unfolding f1 f2 by simp
qed

section \<open>Properties of explain\<close>

lemma executeQuery_first_request:
  "\<exists>rest. snd (executeQuery b sql maxRows tr) = tr @ POST (js ''/api/v3/sql'') sql # rest
          \<and> (\<forall>r\<in>set rest. \<exists>url l. r = GET url l)"
proof -
  obtain outcome tr' where e: "executeQuery_try b sql maxRows tr = (outcome, tr')"
    by (cases "executeQuery_try b sql maxRows tr") auto
  then have s: "snd (executeQuery b sql maxRows tr) = tr'"
    by (simp add: executeQuery_trace)
  from executeQuery_try_cases [OF e] show ?thesis unfolding s
    by (elim disjE exE conjE) auto
qed

text \<open>
  C3. For a statement that \<open>isSelectQuery\<close> rejects, \<open>explainQuery\<close> fails with a
  validation error and sends no request. For a statement it accepts, the one statement
  sent is \<open>EXPLAIN PLAN FOR\<close>, a space and the input; the result, when there is one, is
  the rows of the query result, the values of each row joined with a space and the rows
  joined with line feeds, and an error of the execution is passed on.
\<close>

theorem explainQuery_validates_and_wraps:
  "(\<not> isSelectQuery sql \<longrightarrow>
      explainQuery valueToString b sql tr
        = (Inl (Error (js ''Only SELECT queries can be explained'')), tr))
   \<and> (isSelectQuery sql \<longrightarrow>
        (\<exists>rest. snd (explainQuery valueToString b sql tr)
                  = tr @ POST (js ''/api/v3/sql'') (js ''EXPLAIN PLAN FOR '' @ sql) # rest
               \<and> (\<forall>r\<in>set rest. \<exists>url l. r = GET url l))
        \<and> (\<forall>result tr'.
              executeQuery b (js ''EXPLAIN PLAN FOR '' @ sql) None tr = (Inr result, tr') \<longrightarrow>
              explainQuery valueToString b sql tr
                = (Inr \<lparr> text_of =
                          join [LF]
                            (map (\<lambda>row. join (js '' '') (map valueToString (map snd row)))
                               (rows result)) \<rparr>,
                   tr'))
        \<and> (\<forall>e tr'.
              executeQuery b (js ''EXPLAIN PLAN FOR '' @ sql) None tr = (Inl e, tr') \<longrightarrow>
              explainQuery valueToString b sql tr = (Inl e, tr')))"
proof (intro conjI impI)
  assume "\<not> isSelectQuery sql"
  then show "explainQuery valueToString b sql tr
        = (Inl (Error (js ''Only SELECT queries can be explained'')), tr)"
    by (simp add: explainQuery_def)
next
  assume sel: "isSelectQuery sql"
  have "snd (explainQuery valueToString b sql tr)
          = snd (executeQuery b (js ''EXPLAIN PLAN FOR '' @ sql) None tr)"
    using sel by (simp add: explainQuery_def split: prod.splits sum.splits)
  with executeQuery_first_request [of b "js ''EXPLAIN PLAN FOR '' @ sql" None tr]
  show "\<exists>rest. snd (explainQuery valueToString b sql tr)
                  = tr @ POST (js ''/api/v3/sql'') (js ''EXPLAIN PLAN FOR '' @ sql) # rest
               \<and> (\<forall>r\<in>set rest. \<exists>url l. r = GET url l)"
    by simp
next
  assume sel: "isSelectQuery sql"
  then show "\<forall>result tr'.
              executeQuery b (js ''EXPLAIN PLAN FOR '' @ sql) None tr = (Inr result, tr') \<longrightarrow>
              explainQuery valueToString b sql tr
                = (Inr \<lparr> text_of =
                          join [LF]
                            (map (\<lambda>row. join (js '' '') (map valueToString (map snd row)))
                               (rows result)) \<rparr>,
                   tr')"
    by (simp add: explainQuery_def)
next
  assume sel: "isSelectQuery sql"
  then show "\<forall>e tr'.
              executeQuery b (js ''EXPLAIN PLAN FOR '' @ sql) None tr = (Inl e, tr') \<longrightarrow>
              explainQuery valueToString b sql tr = (Inl e, tr')"
    by (simp add: explainQuery_def)
qed

theorem explainQuery_validates_and_wraps_witness:
  "explainQuery id planBackend (js ''DELETE FROM t'') []
     = (Inl (Error (js ''Only SELECT queries can be explained'')), [])
   \<and> explainQuery id planBackend (js ''SELECT 1'') []
     = (Inr \<lparr> text_of = js ''Project {}'' @ [LF] @ js ''Scan []'' \<rparr>,
        [POST (js ''/api/v3/sql'') (js ''EXPLAIN PLAN FOR SELECT 1''),
         GET (js ''/api/v3/job/job-4'') None,
         GET (js ''/api/v3/job/job-4/results'') (Some 500)])"
proof -
  let ?rows = "[[(js ''text'', js ''Project''), (js ''json'', js ''{}'')],
                [(js ''text'', js ''Scan''), (js ''json'', js ''[]'')]]"
  let ?tr = "[POST (js ''/api/v3/sql'') (js ''EXPLAIN PLAN FOR SELECT 1''),
         GET (js ''/api/v3/job/job-4'') None,
         GET (js ''/api/v3/job/job-4/results'') (Some 500)]"
  have no: "\<not> isSelectQuery (js ''DELETE FROM t'')" by code_simp
  have yes: "isSelectQuery (js ''SELECT 1'')" by code_simp
  have run: "executeQuery planBackend (js ''EXPLAIN PLAN FOR '' @ js ''SELECT 1'') None []
               = (Inr \<lparr> rowCount = 2, schema = [], rows = ?rows \<rparr>, ?tr)"
    by code_simp
  have flat: "join [LF] (map (\<lambda>row. join (js '' '') (map id (map snd row))) ?rows)
               = js ''Project {}'' @ [LF] @ js ''Scan []''"
    by (simp add: js_def)
  from explainQuery_validates_and_wraps [of "js ''DELETE FROM t''" id planBackend "[]"] no
  have a: "explainQuery id planBackend (js ''DELETE FROM t'') []
     = (Inl (Error (js ''Only SELECT queries can be explained'')), [])"
    by blast
  from explainQuery_validates_and_wraps [of "js ''SELECT 1''" id planBackend "[]"] yes run
  have "explainQuery id planBackend (js ''SELECT 1'') []
     = (Inr \<lparr> text_of = join [LF] (map (\<lambda>row. join (js '' '') (map id (map snd row))) ?rows) \<rparr>, ?tr)"
    by simp
  with a show ?thesis unfolding flat by simp
qed

end
